theory Spec2Isabelle
  imports Main "HOL-Library.Multiset" "HOL-Library.Sublist" "HOL-Library.List_Lexorder"
begin

section \<open>Cards (package card)\<close>

text \<open>
  \<^verbatim>\<open>type Suit int\<close> with the constants Spades = 0, Hearts = 1, Diamonds = 2, Clubs = 3
  (iota). A suit is an integer, so a card can carry a suit outside the four constants;
  \<open>IsValidCard\<close> is the only place that looks at the range.
\<close>

type_synonym Suit = int

abbreviation (input) Spades :: Suit where "Spades \<equiv> 0"
abbreviation (input) Hearts :: Suit where "Hearts \<equiv> 1"
abbreviation (input) Diamonds :: Suit where "Diamonds \<equiv> 2"
abbreviation (input) Clubs :: Suit where "Clubs \<equiv> 3"

record Card =
  Suit :: Suit
  Value :: int

definition IsValidCard :: "Card \<Rightarrow> bool" where
  "IsValidCard c = (Suit c \<ge> Spades \<and> Suit c \<le> Clubs \<and> Value c \<ge> 1 \<and> Value c \<le> 13)"

section \<open>Errors and machine integers\<close>

text \<open>
  A Go \<open>error\<close> built by \<open>errors.New\<close> or \<open>fmt.Errorf\<close> is its message; a failed slice
  index is a run-time panic. Both are the left summand of the result type.
\<close>

datatype error = ErrorMsg string | IndexOutOfRange

definition bnd :: "error + 'a \<Rightarrow> ('a \<Rightarrow> error + 'b) \<Rightarrow> error + 'b" where
  "bnd m f = (case m of Inl e \<Rightarrow> Inl e | Inr x \<Rightarrow> f x)"

definition idx :: "'a list \<Rightarrow> nat \<Rightarrow> error + 'a" where
  "idx xs i = (if i < length xs then Inr (xs ! i) else Inl IndexOutOfRange)"

text \<open>
  Go's \<open>int\<close> is taken as 64 bits wide. Values are modelled as mathematical integers and
  \<open>int64\<close> is the wrap-around of an arithmetic result; it is written at every addition and
  subtraction of the source whose operands come from card values.
\<close>

definition int64 :: "int \<Rightarrow> int" where
  "int64 x = (x + 2 ^ 63) mod 2 ^ 64 - 2 ^ 63"

text \<open>\<open>fmt.Sprintf("%d", v)\<close>: decimal digits, with a minus sign for a negative number.\<close>

fun digits :: "nat \<Rightarrow> string" where
  "digits n = (if n < 10 then [''0123456789'' ! n]
               else digits (n div 10) @ [''0123456789'' ! (n mod 10)])"

declare digits.simps [simp del]

definition sprintf_d :: "int \<Rightarrow> string" where
  "sprintf_d v = (if v < 0 then CHR ''-'' # digits (nat (- v)) else digits (nat v))"

section \<open>Hand evaluation (package pokerhand)\<close>

datatype HandRank =
  HighCard | Pair_rank | TwoPair | ThreeOfAKind | Straight | Flush
  | FullHouse | FourOfAKind | StraightFlush | RoyalFlush

text \<open>\<open>int(rank)\<close>: the iota numbering of the constants.\<close>

fun rank_int :: "HandRank \<Rightarrow> int" where
  "rank_int HighCard = 0"
| "rank_int Pair_rank = 1"
| "rank_int TwoPair = 2"
| "rank_int ThreeOfAKind = 3"
| "rank_int Straight = 4"
| "rank_int Flush = 5"
| "rank_int FullHouse = 6"
| "rank_int FourOfAKind = 7"
| "rank_int StraightFlush = 8"
| "rank_int RoyalFlush = 9"

record HandResult =
  Rank :: HandRank
  Name :: string
  Cards :: "Card list"
  HighCards :: "int list"

definition getComparisonValue :: "Card \<Rightarrow> int" where
  "getComparisonValue c = (if Value c = 1 then 14 else Value c)"

subsection \<open>Sorting\<close>

text \<open>
  \<open>sort.Slice\<close> sorts a short slice (the library's threshold is 12 elements; in older
  releases a slice of up to 6 elements takes the same path) by insertion sort:
  \<^verbatim>\<open>for i := a + 1; i < b; i++ {
    for j := i; j > a && less(j, j-1); j-- { swap(j, j-1) } }\<close>
  \<open>bubble\<close> is the inner loop. Its list argument is the already sorted prefix read from
  position \<open>i - 1\<close> down to \<open>0\<close>, and so is its result. Longer slices, where the library
  switches to another algorithm, are outside this model; the evaluator only ever sorts the
  five cards of one combination.
\<close>

fun bubble :: "('a \<Rightarrow> 'a \<Rightarrow> bool) \<Rightarrow> 'a \<Rightarrow> 'a list \<Rightarrow> 'a list" where
  "bubble lt x [] = [x]"
| "bubble lt x (y # ys) = (if lt x y then y # bubble lt x ys else x # y # ys)"

definition sort_Slice :: "('a \<Rightarrow> 'a \<Rightarrow> bool) \<Rightarrow> 'a list \<Rightarrow> 'a list" where
  "sort_Slice lt xs = rev (foldl (\<lambda>pre x. bubble lt x pre) [] xs)"

text \<open>
  \<open>sort.Sort(sort.Reverse(sort.IntSlice(values)))\<close>: integers in descending order. Equal
  integers cannot be told apart, so the result does not depend on the algorithm.
\<close>

definition sort_Reverse :: "int list \<Rightarrow> int list" where
  "sort_Reverse values = rev (sort values)"

subsection \<open>The checks\<close>

definition checkFlush :: "Card list \<Rightarrow> error + bool" where
  "checkFlush hand =
     (case hand of
        [] \<Rightarrow> Inl IndexOutOfRange
      | c # cs \<Rightarrow> Inr (list_all (\<lambda>c'. Suit c' = Suit c) cs))"

text \<open>The loop \<^verbatim>\<open>for i := 1; i < len(values); i++\<close> of \<open>checkStraight\<close>.\<close>

fun regularStraight :: "int list \<Rightarrow> bool" where
  "regularStraight (a # b # vs) = (if a \<noteq> int64 (b + 1) then False else regularStraight (b # vs))"
| "regularStraight vs = True"

text \<open>
  The conjunction \<^verbatim>\<open>values[0] == 14 && values[1] == 5 && ...\<close> reads the slice from left
  to right and stops at the first false conjunct, so an index is only read when all
  earlier comparisons held.
\<close>

definition checkStraight :: "Card list \<Rightarrow> error + (bool \<times> int)" where
  "checkStraight hand =
     (let values = sort_Reverse (map getComparisonValue hand) in
      if regularStraight values then bnd (idx values 0) (\<lambda>v0. Inr (True, v0))
      else
        bnd (idx values 0) (\<lambda>v0. if v0 \<noteq> 14 then Inr (False, 0) else
        bnd (idx values 1) (\<lambda>v1. if v1 \<noteq> 5 then Inr (False, 0) else
        bnd (idx values 2) (\<lambda>v2. if v2 \<noteq> 4 then Inr (False, 0) else
        bnd (idx values 3) (\<lambda>v3. if v3 \<noteq> 3 then Inr (False, 0) else
        bnd (idx values 4) (\<lambda>v4. if v4 \<noteq> 2 then Inr (False, 0) else
        Inr (True, 5)))))))"

text \<open>
  \<open>countValues\<close> fills a \<open>map[int]int\<close>. The map is an association list with one entry per
  key, in order of first insertion. The four functions that range over the map only ask
  whether some count has a given size or how many have; none depends on the order in which
  Go visits the entries.
\<close>

fun incr :: "int \<Rightarrow> (int \<times> nat) list \<Rightarrow> (int \<times> nat) list" where
  "incr k [] = [(k, 1)]"
| "incr k ((k', n) # m) = (if k = k' then (k', n + 1) # m else (k', n) # incr k m)"

definition countValues :: "Card list \<Rightarrow> (int \<times> nat) list" where
  "countValues hand = foldl (\<lambda>counts c. incr (getComparisonValue c) counts) [] hand"

definition hasFourOfAKind :: "(int \<times> nat) list \<Rightarrow> bool" where
  "hasFourOfAKind counts = list_ex (\<lambda>(k, cnt). cnt = 4) counts"

definition hasFullHouse :: "(int \<times> nat) list \<Rightarrow> bool" where
  "hasFullHouse counts =
     (list_ex (\<lambda>(k, cnt). cnt = 3) counts \<and> list_ex (\<lambda>(k, cnt). cnt = 2) counts)"

definition hasThreeOfAKind :: "(int \<times> nat) list \<Rightarrow> bool" where
  "hasThreeOfAKind counts = list_ex (\<lambda>(k, cnt). cnt = 3) counts"

definition countPairs :: "(int \<times> nat) list \<Rightarrow> nat" where
  "countPairs counts = length (filter (\<lambda>(k, cnt). cnt = 2) counts)"

definition getHighCards :: "Card list \<Rightarrow> nat \<Rightarrow> int list" where
  "getHighCards hand cnt = map getComparisonValue (take cnt hand)"

definition cardValueToString :: "int \<Rightarrow> string" where
  "cardValueToString v =
     (if v = 14 then ''A'' else if v = 13 then ''K'' else if v = 12 then ''Q''
      else if v = 11 then ''J'' else sprintf_d v)"

subsection \<open>The classifier\<close>

definition evaluateHand :: "Card list \<Rightarrow> error + HandResult" where
  "evaluateHand hand =
     (let sortedHand = sort_Slice (\<lambda>a b. getComparisonValue a > getComparisonValue b) hand in
      bnd (checkFlush sortedHand) (\<lambda>isFlush.
      bnd (checkStraight sortedHand) (\<lambda>(isStraight, highCard).
        if isFlush \<and> isStraight then
          (if highCard = 14
           then Inr \<lparr>Rank = RoyalFlush, Name = ''Royal Flush'', Cards = sortedHand,
                     HighCards = [14]\<rparr>
           else Inr \<lparr>Rank = StraightFlush, Name = ''Straight Flush'', Cards = sortedHand,
                     HighCards = [highCard]\<rparr>)
        else if isFlush then
          Inr \<lparr>Rank = Flush, Name = ''Flush'', Cards = sortedHand,
               HighCards = getHighCards sortedHand 5\<rparr>
        else if isStraight then
          Inr \<lparr>Rank = Straight, Name = ''Straight'', Cards = sortedHand,
               HighCards = [highCard]\<rparr>
        else
          (let valueCounts = countValues sortedHand in
           if hasFourOfAKind valueCounts then
             Inr \<lparr>Rank = FourOfAKind, Name = ''Four of a Kind'', Cards = sortedHand,
                  HighCards = getHighCards sortedHand 2\<rparr>
           else if hasFullHouse valueCounts then
             Inr \<lparr>Rank = FullHouse, Name = ''Full House'', Cards = sortedHand,
                  HighCards = getHighCards sortedHand 2\<rparr>
           else if hasThreeOfAKind valueCounts then
             Inr \<lparr>Rank = ThreeOfAKind, Name = ''Three of a Kind'', Cards = sortedHand,
                  HighCards = getHighCards sortedHand 3\<rparr>
           else
             (let pairCount = countPairs valueCounts in
              if pairCount = 2 then
                Inr \<lparr>Rank = TwoPair, Name = ''Two Pair'', Cards = sortedHand,
                     HighCards = getHighCards sortedHand 3\<rparr>
              else if pairCount = 1 then
                Inr \<lparr>Rank = Pair_rank, Name = ''Pair'', Cards = sortedHand,
                     HighCards = getHighCards sortedHand 4\<rparr>
              else
                bnd (idx sortedHand 0) (\<lambda>c0.
                  Inr \<lparr>Rank = HighCard,
                       Name = ''High Card '' @ cardValueToString (getComparisonValue c0),
                       Cards = sortedHand,
                       HighCards = getHighCards sortedHand 5\<rparr>))))))"

subsection \<open>The comparator\<close>

fun compareHighCards :: "int list \<Rightarrow> int list \<Rightarrow> int" where
  "compareHighCards (x # xs) (y # ys) =
     (if x \<noteq> y then int64 (x - y) else compareHighCards xs ys)"
| "compareHighCards xs ys = 0"

definition CompareHands :: "HandResult \<Rightarrow> HandResult \<Rightarrow> int" where
  "CompareHands hand1 hand2 =
     (if Rank hand1 \<noteq> Rank hand2 then int64 (rank_int (Rank hand1) - rank_int (Rank hand2))
      else compareHighCards (HighCards hand1) (HighCards hand2))"

subsection \<open>The combination generator\<close>

text \<open>
  The closure \<open>generate(start, k)\<close> of \<open>generateCombinations\<close>. The shared slice \<open>combo\<close>
  is the last argument; the result is the list of combinations the call appends to
  \<open>combos\<close>, in the order it appends them. The loop bound \<open>len(cards) - k\<close> is negative
  when \<open>k\<close> exceeds the length, and the loop body then never runs. The only call passes
  \<open>k = 5\<close>, so \<open>k\<close> is a natural number here; the element type is left open, so that
  the same function also enumerates sequences of indices.
\<close>

function generate :: "'a list \<Rightarrow> nat \<Rightarrow> nat \<Rightarrow> 'a list \<Rightarrow> 'a list list" where
  "generate cards start k combo =
     (if k = 0 then [combo]
      else concat (map (\<lambda>i. generate cards (i + 1) (k - 1) (combo @ [cards ! i]))
                       (if k \<le> length cards then [start ..< length cards - k + 1] else [])))"
  by pat_completeness auto
termination
  by (relation "measure (\<lambda>(cards, start, k, combo). k)") auto

declare generate.simps [simp del]

definition generateCombinations :: "'a list \<Rightarrow> nat \<Rightarrow> 'a list list" where
  "generateCombinations cards k = generate cards 0 k []"

subsection \<open>The evaluator\<close>

text \<open>
  \<open>bestLoop\<close> is the loop of \<open>EvaluateBestHand\<close> over the combinations, with the best
  hand so far as its state. The log line written before returning is not part of the
  result.
\<close>

fun bestLoop :: "Card list list \<Rightarrow> HandResult \<Rightarrow> error + HandResult" where
  "bestLoop [] bestHand = Inr bestHand"
| "bestLoop (combo # rest) bestHand =
     bnd (evaluateHand combo) (\<lambda>result.
       bestLoop rest (if CompareHands result bestHand > 0 then result else bestHand))"

definition EvaluateBestHand :: "Card list \<Rightarrow> error + HandResult" where
  "EvaluateBestHand cards =
     (if length cards < 5 then Inl (ErrorMsg ''not enough cards to evaluate hand'')
      else
        (let combinations = generateCombinations cards 5 in
         bnd (idx combinations 0) (\<lambda>c0.
           bestLoop combinations
             \<lparr>Rank = HighCard, Name = ''High Card'', Cards = c0,
              HighCards = getHighCards c0 5\<rparr>)))"

section \<open>Winner resolution (package holdem)\<close>

record PlayerHand =
  Player :: int
  HoleCards :: "Card list"
  HandResult :: HandResult

fun breakTieLoop :: "PlayerHand \<Rightarrow> PlayerHand \<Rightarrow> Card list \<Rightarrow> Card list \<Rightarrow> PlayerHand" where
  "breakTieLoop hand1 hand2 (c1 # cs1) (c2 # cs2) =
     (let value1 = getComparisonValue c1; value2 = getComparisonValue c2 in
      if value1 > value2 then hand1
      else if value2 > value1 then hand2
      else breakTieLoop hand1 hand2 cs1 cs2)"
| "breakTieLoop hand1 hand2 cs1 cs2 = hand1"

definition breakTie :: "PlayerHand \<Rightarrow> PlayerHand \<Rightarrow> PlayerHand" where
  "breakTie hand1 hand2 = breakTieLoop hand1 hand2 (HoleCards hand1) (HoleCards hand2)"

fun winnerLoop :: "PlayerHand \<Rightarrow> PlayerHand list \<Rightarrow> PlayerHand" where
  "winnerLoop winner [] = winner"
| "winnerLoop winner (p # ps) =
     (let comparison = CompareHands (HandResult p) (HandResult winner) in
      if comparison > 0 then winnerLoop p ps
      else if comparison = 0 then winnerLoop (breakTie winner p) ps
      else winnerLoop winner ps)"

definition DetermineWinner :: "PlayerHand list \<Rightarrow> error + PlayerHand" where
  "DetermineWinner playerHands =
     (case playerHands of
        [] \<Rightarrow> Inl IndexOutOfRange
      | p0 # ps \<Rightarrow> Inr (winnerLoop p0 ps))"

text \<open>
  \<open>EvaluateHands\<close> fills \<open>g.PlayerHands\<close>, which \<open>NewGame\<close> creates with one entry per
  hand, from the players' hole cards \<open>g.Game.Hands\<close> and the community cards. The result is
  the list of players it has filled, numbered from 1, or the error of the first evaluation
  that fails, wrapped by \<open>fmt.Errorf\<close>.
\<close>

fun EvaluateHandsFrom :: "int \<Rightarrow> Card list list \<Rightarrow> Card list \<Rightarrow> error + PlayerHand list" where
  "EvaluateHandsFrom i [] communityCards = Inr []"
| "EvaluateHandsFrom i (hand # hands) communityCards =
     (case EvaluateBestHand (hand @ communityCards) of
        Inl IndexOutOfRange \<Rightarrow> Inl IndexOutOfRange
      | Inl (ErrorMsg err) \<Rightarrow>
          Inl (ErrorMsg (''error evaluating hand for player '' @ sprintf_d (i + 1) @ '': '' @ err))
      | Inr result \<Rightarrow>
          bnd (EvaluateHandsFrom (i + 1) hands communityCards) (\<lambda>rest.
            Inr (\<lparr>Player = i + 1, HoleCards = hand, HandResult = result\<rparr> # rest)))"

definition EvaluateHands :: "Card list list \<Rightarrow> Card list \<Rightarrow> error + PlayerHand list" where
  "EvaluateHands hands communityCards = EvaluateHandsFrom 0 hands communityCards"

section \<open>Deck and Game (packages deck and cardgame)\<close>

record Game =
  Deck :: "Card list"
  Hands :: "Card list list"
  ReferenceDeck :: "Card list"

text \<open>\<open>Draw\<close> returns the card or the error, and the deck as the call leaves it.\<close>

definition Draw :: "Card list \<Rightarrow> (error + Card) \<times> Card list" where
  "Draw d =
     (case d of
        [] \<Rightarrow> (Inl (ErrorMsg ''no cards left in the deck''), d)
      | c # rest \<Rightarrow> (Inr c, rest))"

text \<open>\<open>Deal\<close> returns its error (\<open>None\<close> for \<open>nil\<close>) and the game as the call leaves it.\<close>

definition Deal :: "Game \<Rightarrow> int \<Rightarrow> error option \<times> Game" where
  "Deal g handIndex =
     (if handIndex < 0 \<or> handIndex \<ge> int (length (Hands g))
      then (Some (ErrorMsg ''no cards left in the deck''), g)
      else
        (case Draw (Deck g) of
           (Inl err, d) \<Rightarrow> (Some err, g\<lparr>Deck := d\<rparr>)
         | (Inr c, d) \<Rightarrow>
             (None, g\<lparr>Deck := d,
                     Hands := (Hands g)[nat handIndex := (Hands g) ! nat handIndex @ [c]]\<rparr>)))"

section \<open>Auxiliary notions used in the statements and proofs\<close>

text \<open>
  The combinations of \<open>k\<close> elements of a list by recursion on the list: those that take
  the first element come before those that skip it. The generator is shown to compute
  this list.
\<close>

fun combs :: "nat \<Rightarrow> 'a list \<Rightarrow> 'a list list" where
  "combs 0 xs = [[]]"
| "combs (Suc k) [] = []"
| "combs (Suc k) (x # xs) = map ((#) x) (combs k xs) @ combs (Suc k) xs"

text \<open>
  The number of tie-break entries the classifier produces for each rank, and the key
  \<open>rank # tie-break\<close> under which the comparator is shown to order hands
  lexicographically. A hand is \<open>wellFormed\<close> when its tie-break has the length of its
  rank and holds comparison values only.
\<close>

fun keylen :: "HandRank \<Rightarrow> nat" where
  "keylen HighCard = 5"
| "keylen Pair_rank = 4"
| "keylen TwoPair = 3"
| "keylen ThreeOfAKind = 3"
| "keylen Straight = 1"
| "keylen Flush = 5"
| "keylen FullHouse = 2"
| "keylen FourOfAKind = 2"
| "keylen StraightFlush = 1"
| "keylen RoyalFlush = 1"

definition handKey :: "HandResult \<Rightarrow> int list" where
  "handKey h = rank_int (Rank h) # HighCards h"

definition wellFormed :: "HandResult \<Rightarrow> bool" where
  "wellFormed h =
     (length (HighCards h) = keylen (Rank h) \<and> list_all (\<lambda>v. 2 \<le> v \<and> v \<le> 14) (HighCards h))"

text \<open>The hand as \<open>evaluateHand\<close> sorts it.\<close>

definition sortedHand :: "Card list \<Rightarrow> Card list" where
  "sortedHand hand =
     sort_Slice (\<lambda>a b. getComparisonValue a > getComparisonValue b) hand"

section \<open>Basic facts\<close>

lemma bnd_Inl [simp]: "bnd (Inl e) f = Inl e"
  by (simp add: bnd_def)

lemma bnd_Inr [simp]: "bnd (Inr x) f = f x"
  by (simp add: bnd_def)

lemma bnd_cong [cong]: "m = m' \<Longrightarrow> bnd m f = bnd m' f"
  by simp

lemma bnd_eq_Inr: "bnd m f = Inr y \<longleftrightarrow> (\<exists>x. m = Inr x \<and> f x = Inr y)"
  by (cases m) auto

lemma idx_lt [simp]: "i < length xs \<Longrightarrow> idx xs i = Inr (xs ! i)"
  by (simp add: idx_def)

lemma idx_ge [simp]: "length xs \<le> i \<Longrightarrow> idx xs i = Inl IndexOutOfRange"
  by (simp add: idx_def)

lemma int64_id: "- (2 ^ 63) \<le> x \<Longrightarrow> x < 2 ^ 63 \<Longrightarrow> int64 x = x"
  by (simp add: int64_def)

section \<open>Sorting\<close>

lemma bubble_insort_key: "bubble (\<lambda>a b. f b < f a) x ys = insort_key f x ys"
  by (induction ys) auto

lemma sort_Slice_sort_key: "sort_Slice (\<lambda>a b. f b < f a) xs = rev (sort_key f (rev xs))"
proof -
  have "foldl (\<lambda>pre x. insort_key f x pre) acc xs = foldr (insort_key f) (rev xs) acc" for acc
    by (induction xs arbitrary: acc) auto
  then show ?thesis
    by (simp add: sort_Slice_def bubble_insort_key sort_key_def)
qed

lemma mset_sort_Slice [simp]:
  fixes f :: "'a \<Rightarrow> 'b::linorder"
  shows "mset (sort_Slice (\<lambda>a b. f b < f a) xs) = mset xs"
  by (simp add: sort_Slice_sort_key)

lemma length_sort_Slice [simp]:
  fixes f :: "'a \<Rightarrow> 'b::linorder"
  shows "length (sort_Slice (\<lambda>a b. f b < f a) xs) = length xs"
  by (simp add: sort_Slice_sort_key)

lemma set_sort_Slice [simp]:
  fixes f :: "'a \<Rightarrow> 'b::linorder"
  shows "set (sort_Slice (\<lambda>a b. f b < f a) xs) = set xs"
  by (simp add: sort_Slice_sort_key)

lemma sort_mset_cong: "mset xs = mset ys \<Longrightarrow> sort xs = sort ys"
  by (metis mset_sort properties_for_sort sorted_sort)

lemma map_sort_key: "map f (sort_key f xs) = sort (map f xs)"
  by (rule properties_for_sort [symmetric]) simp_all

lemma map_sort_Slice:
  fixes f :: "'a \<Rightarrow> 'b::linorder"
  shows "map f (sort_Slice (\<lambda>a b. f b < f a) xs) = rev (sort (map f xs))"
proof -
  have "sort (map f (rev xs)) = sort (map f xs)"
    by (rule sort_mset_cong) simp
  then show ?thesis
    by (simp add: sort_Slice_sort_key rev_map [symmetric] map_sort_key)
qed

lemma sort_Slice_stable:
  fixes f :: "'a \<Rightarrow> 'b::linorder"
  shows "filter (\<lambda>c. f c = k) (sort_Slice (\<lambda>a b. f b < f a) xs) = filter (\<lambda>c. f c = k) xs"
  by (simp add: sort_Slice_sort_key rev_filter [symmetric] sort_key_stable)

lemma length5E:
  assumes "length xs = 5"
  obtains a b c d e where "xs = [a, b, c, d, e]"
  using assms by (auto simp: numeral_eq_Suc length_Suc_conv)

section \<open>The checks\<close>

lemma cv_valid: "IsValidCard c \<Longrightarrow> 2 \<le> getComparisonValue c \<and> getComparisonValue c \<le> 14"
  by (auto simp: IsValidCard_def getComparisonValue_def)

lemma mset_sortedHand [simp]: "mset (sortedHand hand) = mset hand"
  by (simp add: sortedHand_def)

lemma length_sortedHand [simp]: "length (sortedHand hand) = length hand"
  by (simp add: sortedHand_def)

lemma set_sortedHand [simp]: "set (sortedHand hand) = set hand"
  by (simp add: sortedHand_def)

lemma values_sortedHand:
  "map getComparisonValue (sortedHand hand) = sort_Reverse (map getComparisonValue hand)"
  by (simp add: sortedHand_def sort_Reverse_def map_sort_Slice)

lemma sort_Reverse_sortedHand [simp]:
  "sort_Reverse (map getComparisonValue (sortedHand hand)) =
   sort_Reverse (map getComparisonValue hand)"
  unfolding sort_Reverse_def by (rule arg_cong [where f = rev], rule sort_mset_cong) simp

lemma checkFlush_Inr:
  "hand \<noteq> [] \<Longrightarrow> checkFlush hand = Inr (\<forall>c \<in> set hand. \<forall>c' \<in> set hand. Suit c = Suit c')"
  by (cases hand) (auto simp: checkFlush_def list_all_iff)

lemma idx_first_five:
  assumes "5 \<le> length xs"
  shows "idx xs 0 = Inr (xs ! 0)" "idx xs (Suc 0) = Inr (xs ! 1)" "idx xs 2 = Inr (xs ! 2)"
    "idx xs 3 = Inr (xs ! 3)" "idx xs 4 = Inr (xs ! 4)"
  using assms by (auto simp: idx_def)

lemma checkStraight_total:
  assumes "5 \<le> length hand"
  shows "\<exists>b h. checkStraight hand = Inr (b, h)"
proof -
  have "5 \<le> length (sort_Reverse (map getComparisonValue hand))"
    using assms by (simp add: sort_Reverse_def)
  note idx_first_five [OF this, simp]
  show ?thesis
    by (auto simp: checkStraight_def Let_def)
qed

lemma checkStraight_5:
  assumes "length hand = 5" and "list_all IsValidCard hand"
  shows "checkStraight hand =
     Inr (let vs = sort_Reverse (map getComparisonValue hand) in
          if (\<exists>h. vs = [h, h - 1, h - 2, h - 3, h - 4]) then (True, hd vs)
          else if vs = [14, 5, 4, 3, 2] then (True, 5)
          else (False, 0))"
proof -
  let ?vs = "sort_Reverse (map getComparisonValue hand)"
  have "length ?vs = 5" using assms by (simp add: sort_Reverse_def)
  then obtain a b c d e where vs: "?vs = [a, b, c, d, e]" by (rule length5E)
  have "set ?vs = getComparisonValue ` set hand" by (simp add: sort_Reverse_def)
  with assms have "\<forall>v \<in> set ?vs. 2 \<le> v \<and> v \<le> 14"
    by (auto simp: list_all_iff dest: cv_valid)
  with vs have bounds: "2 \<le> a" "a \<le> 14" "2 \<le> b" "b \<le> 14" "2 \<le> c" "c \<le> 14"
    "2 \<le> d" "d \<le> 14" "2 \<le> e" "e \<le> 14"
    by simp_all
  then have i64: "int64 (b + 1) = b + 1" "int64 (c + 1) = c + 1" "int64 (d + 1) = d + 1"
    "int64 (e + 1) = e + 1"
    by (simp_all add: int64_id)
  have reg: "regularStraight [a, b, c, d, e] \<longleftrightarrow>
             b = a - 1 \<and> c = a - 2 \<and> d = a - 3 \<and> e = a - 4"
    by (simp add: i64)
  have ex: "(\<exists>h. [a, b, c, d, e] = [h, h - 1, h - 2, h - 3, h - 4]) \<longleftrightarrow>
            b = a - 1 \<and> c = a - 2 \<and> d = a - 3 \<and> e = a - 4"
    by auto
  have low: "[a, b, c, d, e] = [14, 5, 4, 3, 2] \<longleftrightarrow> a = 14 \<and> b = 5 \<and> c = 4 \<and> d = 3 \<and> e = 2"
    by simp
  have first: "bnd (idx [a, b, c, d, e] 0) (\<lambda>v0. Inr (True, v0)) = Inr (True, a)"
    by (simp add: idx_def)
  have chain:
    "bnd (idx [a, b, c, d, e] 0) (\<lambda>v0. if v0 \<noteq> 14 then Inr (False, 0) else
     bnd (idx [a, b, c, d, e] 1) (\<lambda>v1. if v1 \<noteq> 5 then Inr (False, 0) else
     bnd (idx [a, b, c, d, e] 2) (\<lambda>v2. if v2 \<noteq> 4 then Inr (False, 0) else
     bnd (idx [a, b, c, d, e] 3) (\<lambda>v3. if v3 \<noteq> 3 then Inr (False, 0) else
     bnd (idx [a, b, c, d, e] 4) (\<lambda>v4. if v4 \<noteq> 2 then Inr (False, 0) else
     Inr (True, 5))))))
     = Inr (if a = 14 \<and> b = 5 \<and> c = 4 \<and> d = 3 \<and> e = 2 then (True, 5) else (False, 0))"
    by (simp add: idx_def)
  show ?thesis
    unfolding checkStraight_def Let_def vs ex low chain first
    by (simp add: reg del: regularStraight.simps)
qed

section \<open>The classifier\<close>

lemma evaluateHand_sortedHand:
  "evaluateHand hand =
     bnd (checkFlush (sortedHand hand)) (\<lambda>isFlush.
     bnd (checkStraight (sortedHand hand)) (\<lambda>(isStraight, highCard).
        if isFlush \<and> isStraight then
          (if highCard = 14
           then Inr \<lparr>Rank = RoyalFlush, Name = ''Royal Flush'', Cards = sortedHand hand,
                     HighCards = [14]\<rparr>
           else Inr \<lparr>Rank = StraightFlush, Name = ''Straight Flush'', Cards = sortedHand hand,
                     HighCards = [highCard]\<rparr>)
        else if isFlush then
          Inr \<lparr>Rank = Flush, Name = ''Flush'', Cards = sortedHand hand,
               HighCards = getHighCards (sortedHand hand) 5\<rparr>
        else if isStraight then
          Inr \<lparr>Rank = Straight, Name = ''Straight'', Cards = sortedHand hand,
               HighCards = [highCard]\<rparr>
        else if hasFourOfAKind (countValues (sortedHand hand)) then
          Inr \<lparr>Rank = FourOfAKind, Name = ''Four of a Kind'', Cards = sortedHand hand,
               HighCards = getHighCards (sortedHand hand) 2\<rparr>
        else if hasFullHouse (countValues (sortedHand hand)) then
          Inr \<lparr>Rank = FullHouse, Name = ''Full House'', Cards = sortedHand hand,
               HighCards = getHighCards (sortedHand hand) 2\<rparr>
        else if hasThreeOfAKind (countValues (sortedHand hand)) then
          Inr \<lparr>Rank = ThreeOfAKind, Name = ''Three of a Kind'', Cards = sortedHand hand,
               HighCards = getHighCards (sortedHand hand) 3\<rparr>
        else if countPairs (countValues (sortedHand hand)) = 2 then
          Inr \<lparr>Rank = TwoPair, Name = ''Two Pair'', Cards = sortedHand hand,
               HighCards = getHighCards (sortedHand hand) 3\<rparr>
        else if countPairs (countValues (sortedHand hand)) = 1 then
          Inr \<lparr>Rank = Pair_rank, Name = ''Pair'', Cards = sortedHand hand,
               HighCards = getHighCards (sortedHand hand) 4\<rparr>
        else
          bnd (idx (sortedHand hand) 0) (\<lambda>c0.
            Inr \<lparr>Rank = HighCard,
                 Name = ''High Card '' @ cardValueToString (getComparisonValue c0),
                 Cards = sortedHand hand,
                 HighCards = getHighCards (sortedHand hand) 5\<rparr>)))"
  unfolding evaluateHand_def sortedHand_def Let_def by (rule refl)

lemma evaluateHand_InrE:
  assumes "evaluateHand hand = Inr r"
  obtains fl st h where
    "checkFlush (sortedHand hand) = Inr fl"
    "checkStraight (sortedHand hand) = Inr (st, h)"
    "Cards r = sortedHand hand"
    "HighCards r =
       (if Rank r = RoyalFlush then [14]
        else if Rank r = StraightFlush \<or> Rank r = Straight then [h]
        else getHighCards (sortedHand hand) (keylen (Rank r)))"
    "Rank r = RoyalFlush \<or> Rank r = StraightFlush \<or> Rank r = Straight \<longrightarrow> st"
proof -
  from assms obtain fl sh where
    fl: "checkFlush (sortedHand hand) = Inr fl" and
    sh: "checkStraight (sortedHand hand) = Inr sh"
    unfolding evaluateHand_sortedHand by (auto simp: bnd_eq_Inr)
  obtain st h where sth: "sh = (st, h)" by (cases sh)
  from assms have
    "Cards r = sortedHand hand \<and>
     HighCards r =
       (if Rank r = RoyalFlush then [14]
        else if Rank r = StraightFlush \<or> Rank r = Straight then [h]
        else getHighCards (sortedHand hand) (keylen (Rank r))) \<and>
     (Rank r = RoyalFlush \<or> Rank r = StraightFlush \<or> Rank r = Straight \<longrightarrow> st)"
    unfolding evaluateHand_sortedHand fl sh sth
    by (auto simp: bnd_eq_Inr split: if_splits)
  with fl sh sth that show thesis by blast
qed

lemma evaluateHand_total:
  assumes "5 \<le> length hand"
  shows "\<exists>r. evaluateHand hand = Inr r"
proof -
  have "length (sortedHand hand) = length hand" by simp
  with assms have ne: "sortedHand hand \<noteq> []" by (cases "sortedHand hand") auto
  from assms obtain st h where cs: "checkStraight (sortedHand hand) = Inr (st, h)"
    using checkStraight_total [of "sortedHand hand"] by auto
  from assms have i0: "idx (sortedHand hand) 0 = Inr (sortedHand hand ! 0)"
    by (auto simp: idx_def)
  from ne obtain fl where cf: "checkFlush (sortedHand hand) = Inr fl"
    using checkFlush_Inr by blast
  show ?thesis
    unfolding evaluateHand_sortedHand cf cs i0 by simp
qed

lemma getHighCards_length: "n \<le> length hand \<Longrightarrow> length (getHighCards hand n) = n"
  by (simp add: getHighCards_def)

lemma getHighCards_set: "set (getHighCards hand n) \<subseteq> getComparisonValue ` set hand"
  by (auto simp: getHighCards_def dest: in_set_takeD)

lemma evaluateHand_wellFormed:
  assumes len: "length hand = 5" and valid: "list_all IsValidCard hand"
    and r: "evaluateHand hand = Inr r"
  shows "wellFormed r"
proof -
  from r obtain fl st h where
    cs: "checkStraight (sortedHand hand) = Inr (st, h)" and
    hc: "HighCards r =
       (if Rank r = RoyalFlush then [14]
        else if Rank r = StraightFlush \<or> Rank r = Straight then [h]
        else getHighCards (sortedHand hand) (keylen (Rank r)))" and
    st: "Rank r = RoyalFlush \<or> Rank r = StraightFlush \<or> Rank r = Straight \<longrightarrow> st"
    by (rule evaluateHand_InrE) (rule that, assumption+)
  have bound: "2 \<le> v \<and> v \<le> 14" if "v \<in> getComparisonValue ` set hand" for v
    using that valid by (auto simp: list_all_iff dest: cv_valid)
  have vs: "set (sort_Reverse (map getComparisonValue hand)) = getComparisonValue ` set hand"
    by (simp add: sort_Reverse_def)
  have hbound: "2 \<le> h \<and> h \<le> 14" if st
  proof -
    have "length (sort_Reverse (map getComparisonValue hand)) = 5"
      using len by (simp add: sort_Reverse_def)
    then have "sort_Reverse (map getComparisonValue hand) \<noteq> []"
      by auto
    then have "hd (sort_Reverse (map getComparisonValue hand)) \<in> getComparisonValue ` set hand"
      using vs hd_in_set by blast
    then have "2 \<le> hd (sort_Reverse (map getComparisonValue hand))
         \<and> hd (sort_Reverse (map getComparisonValue hand)) \<le> 14"
      by (rule bound)
    moreover have "checkStraight (sortedHand hand) = checkStraight hand"
      by (simp add: checkStraight_def)
    ultimately show ?thesis
      using cs that checkStraight_5 [OF len valid]
      by (auto simp: Let_def split: if_splits)
  qed
  have "keylen (Rank r) \<le> length (sortedHand hand)"
    using len by (cases "Rank r") simp_all
  then have l: "length (getHighCards (sortedHand hand) (keylen (Rank r))) = keylen (Rank r)"
    by (rule getHighCards_length)
  have b: "list_all (\<lambda>v. 2 \<le> v \<and> v \<le> 14) (getHighCards (sortedHand hand) n)" for n
    using getHighCards_set [of "sortedHand hand" n] bound by (auto simp: list_all_iff)
  show ?thesis
    unfolding wellFormed_def hc using st hbound l b
    by (cases "Rank r") auto
qed

section \<open>The combination generator\<close>

lemma combs_short: "length xs < k \<Longrightarrow> combs k xs = []"
  by (induction k xs rule: combs.induct) auto

lemma combs_unfold:
  "combs (Suc k) xs =
     concat (map (\<lambda>j. map ((#) (xs ! j)) (combs k (drop (Suc j) xs))) [0..<length xs])"
proof (induction xs)
  case Nil
  show ?case by simp
next
  case (Cons x xs)
  have "[0..<length (x # xs)] = 0 # map Suc [0..<length xs]"
    by (simp add: upt_conv_Cons map_Suc_upt del: upt_Suc)
  then show ?case
    using Cons.IH by (simp add: comp_def del: upt_Suc)
qed

lemma combs_drop_unfold:
  assumes "start \<le> length cards"
  shows "combs (Suc k) (drop start cards) =
     concat (map (\<lambda>i. map ((#) (cards ! i)) (combs k (drop (Suc i) cards)))
                 [start..<length cards])"
proof -
  have "[start..<length cards] = map (\<lambda>j. j + start) [0..<length cards - start]"
    using assms by (simp add: map_add_upt)
  then show ?thesis
    using assms by (simp add: combs_unfold [of k "drop start cards"] comp_def add.commute)
qed

lemma concat_map_Nil: "(\<And>x. x \<in> set xs \<Longrightarrow> f x = []) \<Longrightarrow> concat (map f xs) = []"
  by (induction xs) auto

lemma combs_drop_bounded:
  assumes "Suc k \<le> length cards"
  shows "combs (Suc k) (drop start cards) =
     concat (map (\<lambda>i. map ((#) (cards ! i)) (combs k (drop (Suc i) cards)))
                 [start..<length cards - k])"
proof (cases "start \<le> length cards - k")
  case True
  let ?f = "\<lambda>i. map ((#) (cards ! i)) (combs k (drop (Suc i) cards))"
  have split: "[start..<length cards] = [start..<length cards - k] @ [length cards - k..<length cards]"
    using True assms by (metis diff_le_self le_Suc_ex upt_add_eq_append)
  have "concat (map ?f [length cards - k..<length cards]) = []"
    by (rule concat_map_Nil) (use assms in \<open>auto intro!: combs_short\<close>)
  moreover have "start \<le> length cards" using True by simp
  ultimately show ?thesis
    by (simp add: combs_drop_unfold split)
next
  case False
  then have "length (drop start cards) < Suc k" by simp
  then have "combs (Suc k) (drop start cards) = []" by (rule combs_short)
  with False show ?thesis by simp
qed

lemma generate_combs:
  "generate cards start k combo = map ((@) combo) (combs k (drop start cards))"
proof (induction cards start k combo rule: generate.induct)
  case (1 cards start k combo)
  show ?case
  proof (cases k)
    case 0
    then show ?thesis by (simp add: generate.simps)
  next
    case (Suc k')
    show ?thesis
    proof (cases "k \<le> length cards")
      case True
      have range: "(if k \<le> length cards then [start..<length cards - k + 1] else []) =
                   [start..<length cards - k']"
      proof -
        have "length cards - k + 1 = length cards - k'" using True Suc by simp
        with True show ?thesis by (simp only: if_True)
      qed
      have IH: "generate cards (i + 1) (k - 1) (combo @ [cards ! i]) =
                map ((@) (combo @ [cards ! i])) (combs k' (drop (Suc i) cards))"
        if "i \<in> set [start..<length cards - k']" for i
      proof -
        have "k \<noteq> 0" using Suc by simp
        moreover have "i \<in> set (if k \<le> length cards then [start..<length cards - k + 1] else [])"
          using that by (simp only: range)
        ultimately show ?thesis
          using "1.IH" [of i] Suc by simp
      qed
      have "generate cards start k combo =
            concat (map (\<lambda>i. generate cards (i + 1) (k - 1) (combo @ [cards ! i]))
                        [start..<length cards - k'])"
        unfolding generate.simps [of cards start k combo] range using Suc by simp
      also have "\<dots> =
            concat (map (\<lambda>i. map ((@) (combo @ [cards ! i])) (combs k' (drop (Suc i) cards)))
                        [start..<length cards - k'])"
        by (rule arg_cong [where f = concat], rule map_cong [OF refl]) (rule IH)
      also have "\<dots> = map ((@) combo) (combs (Suc k') (drop start cards))"
      proof -
        have "(@) (combo @ [c]) = (\<lambda>ys. combo @ c # ys)" for c
          by auto
        then show ?thesis
          using True Suc by (simp add: combs_drop_bounded map_concat comp_def)
      qed
      finally show ?thesis using Suc by simp
    next
      case False
      then have "combs k (drop start cards) = []" by (intro combs_short) simp
      with False Suc show ?thesis by (subst generate.simps) simp
    qed
  qed
qed

lemma generateCombinations_combs: "generateCombinations cards k = combs k cards"
  by (simp add: generateCombinations_def generate_combs map_idI)

lemma length_combs: "length (combs k xs) = length xs choose k"
  by (induction k xs rule: combs.induct) auto

lemma length_in_combs: "ys \<in> set (combs k xs) \<Longrightarrow> length ys = k"
  by (induction k xs arbitrary: ys rule: combs.induct) auto

lemma set_combs: "set (combs k xs) = {ys. subseq ys xs \<and> length ys = k}"
proof (induction k xs rule: combs.induct)
  case (1 xs)
  show ?case by auto
next
  case (2 k)
  show ?case by auto
next
  case (3 k x xs)
  show ?case
  proof (intro set_eqI iffI)
    fix ys
    assume "ys \<in> set (combs (Suc k) (x # xs))"
    then show "ys \<in> {ys. subseq ys (x # xs) \<and> length ys = Suc k}"
      using 3 by auto
  next
    fix ys
    assume "ys \<in> {ys. subseq ys (x # xs) \<and> length ys = Suc k}"
    then obtain y ys' where ys: "ys = y # ys'" "length ys' = k" "subseq (y # ys') (x # xs)"
      by (cases ys) auto
    show "ys \<in> set (combs (Suc k) (x # xs))"
    proof (cases "y = x")
      case True
      with ys have "ys' \<in> set (combs k xs)" using 3 by simp
      with True ys show ?thesis by simp
    next
      case False
      with ys have "ys \<in> set (combs (Suc k) xs)" using 3 by simp
      then show ?thesis by simp
    qed
  qed
qed

lemma subseq_set_subset: "subseq ys xs \<Longrightarrow> set ys \<subseteq> set xs"
  by (induction rule: list_emb.induct) auto

lemma distinct_combs: "distinct xs \<Longrightarrow> distinct (combs k xs)"
proof (induction k xs rule: combs.induct)
  case (3 k x xs)
  have "x \<notin> set ys" if "ys \<in> set (combs (Suc k) xs)" for ys
  proof -
    from that have "subseq ys xs" by (simp add: set_combs)
    then have "set ys \<subseteq> set xs" by (rule subseq_set_subset)
    with 3 show ?thesis by auto
  qed
  then have "set (map ((#) x) (combs k xs)) \<inter> set (combs (Suc k) xs) = {}"
    by fastforce
  with 3 show ?case
    by (simp add: distinct_map)
qed simp_all

lemma combs_map: "combs k (map f xs) = map (map f) (combs k xs)"
  by (induction k xs rule: combs.induct) auto

lemma sorted_combs:
  fixes xs :: "'a :: linorder list"
  shows "sorted_wrt (<) xs \<Longrightarrow> sorted_wrt (<) (combs k xs)"
proof (induction k xs rule: combs.induct)
  case (3 k x xs)
  have cross: "x # a < b" if "b \<in> set (combs (Suc k) xs)" for a b
  proof -
    from that have "subseq b xs" "length b = Suc k" by (simp_all add: set_combs)
    then obtain y b' where "b = y # b'" "y \<in> set xs"
      using subseq_set_subset [of b xs] by (cases b) auto
    with 3 show ?thesis by auto
  qed
  have "sorted_wrt (<) (map ((#) x) (combs k xs))"
    using 3 by (simp add: sorted_wrt_map)
  with 3 cross show ?case
    by (auto simp: sorted_wrt_append)
qed simp_all

lemma sorted_wrt_subseq: "subseq ys xs \<Longrightarrow> sorted_wrt P xs \<Longrightarrow> sorted_wrt P ys"
  by (induction rule: list_emb.induct) (use subseq_set_subset in auto)

lemma distinct_subseq: "subseq ys xs \<Longrightarrow> distinct xs \<Longrightarrow> distinct ys"
  by (metis in_set_subseqs subseqs_distinctD)

lemma seven_choose_five: "(7::nat) choose 5 = 21"
  by code_simp


text \<open>
  C9. For a sequence of distinct cards, \<open>generateCombinations cards 5\<close> has exactly
  \<open>n choose 5\<close> entries, without repetition; its entries are exactly the 5-element
  subsequences of the input (each keeps the input's relative order, has no repeated card,
  and none is left out); it lists them in lexicographic order of their index sequences;
  and 7 cards give 21 combinations.
\<close>

theorem generateCombinations_all_subsets:
  assumes "distinct cards"
  shows "length (generateCombinations cards 5) = length cards choose 5
    \<and> distinct (generateCombinations cards 5)
    \<and> set (generateCombinations cards 5) = {c. subseq c cards \<and> length c = 5}
    \<and> (\<forall>c \<in> set (generateCombinations cards 5). distinct c)
    \<and> generateCombinations cards 5 =
        map (map ((!) cards)) (generateCombinations [0..<length cards] 5)
    \<and> sorted_wrt (<) (generateCombinations [0..<length cards] 5)
    \<and> (\<forall>js \<in> set (generateCombinations [0..<length cards] 5).
          sorted_wrt (<) js \<and> length js = 5 \<and> set js \<subseteq> {0..<length cards})
    \<and> (length cards = 7 \<longrightarrow> length (generateCombinations cards 5) = 21)"
proof -
  let ?gen = "generateCombinations cards 5"
  let ?igen = "generateCombinations [0..<length cards] 5"
  have idx_sorted: "sorted_wrt (<) [0..<length cards]"
    by simp
  have c1: "length ?gen = length cards choose 5"
    unfolding generateCombinations_combs by (rule length_combs)
  have c2: "distinct ?gen"
    unfolding generateCombinations_combs using assms by (rule distinct_combs)
  have c3: "set ?gen = {c. subseq c cards \<and> length c = 5}"
    unfolding generateCombinations_combs by (rule set_combs)
  have c4: "\<forall>c \<in> set ?gen. distinct c"
  proof
    fix c assume "c \<in> set ?gen"
    then have "subseq c cards" unfolding c3 by blast
    then show "distinct c" using assms by (rule distinct_subseq)
  qed
  have c5: "?gen = map (map ((!) cards)) ?igen"
  proof -
    have "map (map ((!) cards)) (combs 5 [0..<length cards]) =
          combs 5 (map ((!) cards) [0..<length cards])"
      by (rule combs_map [symmetric])
    also have "\<dots> = combs 5 cards"
      by (simp only: map_nth)
    finally show ?thesis
      unfolding generateCombinations_combs by (rule sym)
  qed
  have c6: "sorted_wrt (<) ?igen"
    unfolding generateCombinations_combs using idx_sorted by (rule sorted_combs)
  have c7: "\<forall>js \<in> set ?igen. sorted_wrt (<) js \<and> length js = 5 \<and> set js \<subseteq> {0..<length cards}"
  proof
    fix js assume "js \<in> set ?igen"
    then have mem: "js \<in> set (combs 5 [0..<length cards])"
      unfolding generateCombinations_combs .
    then have len: "length js = 5"
      by (rule length_in_combs)
    from mem have "js \<in> {ys. subseq ys [0..<length cards] \<and> length ys = 5}"
      unfolding set_combs .
    then have sub: "subseq js [0..<length cards]"
      by blast
    from sub have "set js \<subseteq> set [0..<length cards]"
      by (rule subseq_set_subset)
    then have "set js \<subseteq> {0..<length cards}" by simp
    with len sorted_wrt_subseq [OF sub idx_sorted]
    show "sorted_wrt (<) js \<and> length js = 5 \<and> set js \<subseteq> {0..<length cards}"
      by (intro conjI)
  qed
  have c8: "length cards = 7 \<longrightarrow> length ?gen = 21"
    unfolding c1 using seven_choose_five by (intro impI) (simp only:)
  from c1 c2 c3 c4 c5 c6 c7 c8 show ?thesis
    by (intro conjI)
qed

theorem generateCombinations_all_subsets_witness:
  "distinct [\<lparr>Suit = 0, Value = 9\<rparr>, \<lparr>Suit = 1, Value = 9\<rparr>, \<lparr>Suit = 2, Value = 9\<rparr>,
             \<lparr>Suit = 3, Value = 9\<rparr>, \<lparr>Suit = 0, Value = 13\<rparr>, \<lparr>Suit = 1, Value = 5\<rparr>,
             \<lparr>Suit = 2, Value = 2\<rparr>]
   \<and> length (generateCombinations
        [\<lparr>Suit = 0, Value = 9\<rparr>, \<lparr>Suit = 1, Value = 9\<rparr>, \<lparr>Suit = 2, Value = 9\<rparr>,
         \<lparr>Suit = 3, Value = 9\<rparr>, \<lparr>Suit = 0, Value = 13\<rparr>, \<lparr>Suit = 1, Value = 5\<rparr>,
         \<lparr>Suit = 2, Value = 2\<rparr>] 5) = 21
   \<and> distinct (generateCombinations
        [\<lparr>Suit = 0, Value = 9\<rparr>, \<lparr>Suit = 1, Value = 9\<rparr>, \<lparr>Suit = 2, Value = 9\<rparr>,
         \<lparr>Suit = 3, Value = 9\<rparr>, \<lparr>Suit = 0, Value = 13\<rparr>, \<lparr>Suit = 1, Value = 5\<rparr>,
         \<lparr>Suit = 2, Value = 2\<rparr>] 5)"
proof -
  let ?seven = "[\<lparr>Suit = 0, Value = 9\<rparr>, \<lparr>Suit = 1, Value = 9\<rparr>, \<lparr>Suit = 2, Value = 9\<rparr>,
                 \<lparr>Suit = 3, Value = 9\<rparr>, \<lparr>Suit = 0, Value = 13\<rparr>, \<lparr>Suit = 1, Value = 5\<rparr>,
                 \<lparr>Suit = 2, Value = (2::int)\<rparr>]"
  have d: "distinct ?seven" by simp
  note all = generateCombinations_all_subsets [OF d]
  have n: "length (generateCombinations ?seven 5) = 21"
    using all [THEN conjunct2, THEN conjunct2, THEN conjunct2, THEN conjunct2,
               THEN conjunct2, THEN conjunct2, THEN conjunct2]
    by simp
  show ?thesis
    using d n all [THEN conjunct2, THEN conjunct1] by (intro conjI)
qed

section \<open>Dealing\<close>

text \<open>
  C10. \<open>Deal\<close> with a hand index outside \<open>[0, number of hands)\<close> returns an error and
  leaves the game as it was, and so does a deal from an empty deck. With an index in range,
  a deal that returns no error has removed the first card of the deck and appended that
  card to the selected hand; the other hands, the number of hands and the reference deck
  are unchanged. With an index in range and a non-empty deck the deal returns no error.
\<close>

theorem Deal_atomic:
  "(handIndex < 0 \<or> handIndex \<ge> int (length (Hands g))
      \<longrightarrow> (\<exists>err. Deal g handIndex = (Some err, g)))
   \<and> (Deck g = [] \<longrightarrow> (\<exists>err. Deal g handIndex = (Some err, g)))
   \<and> (0 \<le> handIndex \<and> handIndex < int (length (Hands g)) \<longrightarrow>
        (\<forall>g'. Deal g handIndex = (None, g') \<longrightarrow>
           (\<exists>c. Deck g = c # Deck g'
              \<and> Hands g' ! nat handIndex = Hands g ! nat handIndex @ [c]
              \<and> length (Hands g') = length (Hands g)
              \<and> (\<forall>j < length (Hands g). j \<noteq> nat handIndex \<longrightarrow> Hands g' ! j = Hands g ! j)
              \<and> ReferenceDeck g' = ReferenceDeck g)))
   \<and> (0 \<le> handIndex \<and> handIndex < int (length (Hands g)) \<and> Deck g \<noteq> []
        \<longrightarrow> fst (Deal g handIndex) = None)"
  by (cases "Deck g") (auto simp: Deal_def Draw_def)

theorem Deal_atomic_witness:
  "Deal \<lparr>Deck = [\<lparr>Suit = 0, Value = 1\<rparr>, \<lparr>Suit = 1, Value = 7\<rparr>], Hands = [[], []],
         ReferenceDeck = []\<rparr> 2
     = (Some (ErrorMsg ''no cards left in the deck''),
        \<lparr>Deck = [\<lparr>Suit = 0, Value = 1\<rparr>, \<lparr>Suit = 1, Value = 7\<rparr>], Hands = [[], []],
         ReferenceDeck = []\<rparr>)
   \<and> Deal \<lparr>Deck = [\<lparr>Suit = 0, Value = 1\<rparr>, \<lparr>Suit = 1, Value = 7\<rparr>], Hands = [[], []],
         ReferenceDeck = []\<rparr> 1
     = (None, \<lparr>Deck = [\<lparr>Suit = 1, Value = 7\<rparr>], Hands = [[], [\<lparr>Suit = 0, Value = 1\<rparr>]],
         ReferenceDeck = []\<rparr>)"
  using Deal_atomic [of 2 "\<lparr>Deck = [\<lparr>Suit = 0, Value = 1\<rparr>, \<lparr>Suit = 1, Value = 7\<rparr>],
                            Hands = [[], []], ReferenceDeck = []\<rparr>"]
        Deal_atomic [of 1 "\<lparr>Deck = [\<lparr>Suit = 0, Value = 1\<rparr>, \<lparr>Suit = 1, Value = 7\<rparr>],
                            Hands = [[], []], ReferenceDeck = []\<rparr>"]
  by (simp add: Deal_def Draw_def)

section \<open>Evaluating the classifier on concrete hands\<close>

lemmas evaluator_defs =
  EvaluateBestHand_def generateCombinations_combs eval_nat_numeral idx_def
  evaluateHand_def sort_Slice_def checkFlush_def checkStraight_def sort_Reverse_def
  getComparisonValue_def countValues_def hasFourOfAKind_def hasFullHouse_def
  hasThreeOfAKind_def countPairs_def getHighCards_def CompareHands_def int64_def
  cardValueToString_def sprintf_d_def Let_def

text \<open>
  C1. The full house \<open>2\<heartsuit> 2\<diamondsuit> 2\<clubsuit> 5\<spadesuit> 5\<heartsuit>\<close> is classified as FullHouse, but its tie-break is
  \<open>[5, 5]\<close>, the values of the first two cards of the sorted hand, and not
  \<open>[2, 5]\<close>, triple before pair. The full house \<open>5\<spadesuit> 5\<heartsuit> 5\<diamondsuit> 2\<heartsuit> 2\<diamondsuit>\<close> gets the same
  tie-break, and the comparator finds the two hands Equal.
\<close>

theorem evaluateHand_full_house_key:
  "evaluateHand
     [\<lparr>Suit = Hearts, Value = 2\<rparr>, \<lparr>Suit = Diamonds, Value = 2\<rparr>, \<lparr>Suit = Clubs, Value = 2\<rparr>,
      \<lparr>Suit = Spades, Value = 5\<rparr>, \<lparr>Suit = Hearts, Value = 5\<rparr>]
   = Inr \<lparr>Rank = FullHouse, Name = ''Full House'',
          Cards = [\<lparr>Suit = Spades, Value = 5\<rparr>, \<lparr>Suit = Hearts, Value = 5\<rparr>,
                   \<lparr>Suit = Hearts, Value = 2\<rparr>, \<lparr>Suit = Diamonds, Value = 2\<rparr>,
                   \<lparr>Suit = Clubs, Value = 2\<rparr>],
          HighCards = [5, 5]\<rparr>
   \<and> evaluateHand
     [\<lparr>Suit = Spades, Value = 5\<rparr>, \<lparr>Suit = Hearts, Value = 5\<rparr>, \<lparr>Suit = Diamonds, Value = 5\<rparr>,
      \<lparr>Suit = Hearts, Value = 2\<rparr>, \<lparr>Suit = Diamonds, Value = 2\<rparr>]
   = Inr \<lparr>Rank = FullHouse, Name = ''Full House'',
          Cards = [\<lparr>Suit = Spades, Value = 5\<rparr>, \<lparr>Suit = Hearts, Value = 5\<rparr>,
                   \<lparr>Suit = Diamonds, Value = 5\<rparr>, \<lparr>Suit = Hearts, Value = 2\<rparr>,
                   \<lparr>Suit = Diamonds, Value = 2\<rparr>],
          HighCards = [5, 5]\<rparr>
   \<and> CompareHands
       \<lparr>Rank = FullHouse, Name = ''Full House'',
          Cards = [\<lparr>Suit = Spades, Value = 5\<rparr>, \<lparr>Suit = Hearts, Value = 5\<rparr>,
                   \<lparr>Suit = Hearts, Value = 2\<rparr>, \<lparr>Suit = Diamonds, Value = 2\<rparr>,
                   \<lparr>Suit = Clubs, Value = 2\<rparr>],
          HighCards = [5, 5]\<rparr>
       \<lparr>Rank = FullHouse, Name = ''Full House'',
          Cards = [\<lparr>Suit = Spades, Value = 5\<rparr>, \<lparr>Suit = Hearts, Value = 5\<rparr>,
                   \<lparr>Suit = Diamonds, Value = 5\<rparr>, \<lparr>Suit = Hearts, Value = 2\<rparr>,
                   \<lparr>Suit = Diamonds, Value = 2\<rparr>],
          HighCards = [5, 5]\<rparr> = 0"
  by (simp add: evaluator_defs)

text \<open>
  C2. Seven cards holding four 9s, a king, a 5 and a 2: the best hand is FourOfAKind, and
  its tie-break is \<open>[13, 9]\<close>, kicker first, not \<open>[9, 13]\<close>. With kickers below the
  quads (5, 3 and 2) the tie-break is \<open>[9, 9]\<close> and holds no kicker.
\<close>

theorem EvaluateBestHand_four_of_a_kind_key:
  "EvaluateBestHand
     [\<lparr>Suit = Spades, Value = 9\<rparr>, \<lparr>Suit = Hearts, Value = 9\<rparr>, \<lparr>Suit = Diamonds, Value = 9\<rparr>,
      \<lparr>Suit = Clubs, Value = 9\<rparr>, \<lparr>Suit = Spades, Value = 13\<rparr>, \<lparr>Suit = Hearts, Value = 5\<rparr>,
      \<lparr>Suit = Diamonds, Value = 2\<rparr>]
   = Inr \<lparr>Rank = FourOfAKind, Name = ''Four of a Kind'',
          Cards = [\<lparr>Suit = Spades, Value = 13\<rparr>, \<lparr>Suit = Spades, Value = 9\<rparr>,
                   \<lparr>Suit = Hearts, Value = 9\<rparr>, \<lparr>Suit = Diamonds, Value = 9\<rparr>,
                   \<lparr>Suit = Clubs, Value = 9\<rparr>],
          HighCards = [13, 9]\<rparr>
   \<and> EvaluateBestHand
     [\<lparr>Suit = Spades, Value = 9\<rparr>, \<lparr>Suit = Hearts, Value = 9\<rparr>, \<lparr>Suit = Diamonds, Value = 9\<rparr>,
      \<lparr>Suit = Clubs, Value = 9\<rparr>, \<lparr>Suit = Spades, Value = 5\<rparr>, \<lparr>Suit = Hearts, Value = 3\<rparr>,
      \<lparr>Suit = Diamonds, Value = 2\<rparr>]
   = Inr \<lparr>Rank = FourOfAKind, Name = ''Four of a Kind'',
          Cards = [\<lparr>Suit = Spades, Value = 9\<rparr>, \<lparr>Suit = Hearts, Value = 9\<rparr>,
                   \<lparr>Suit = Diamonds, Value = 9\<rparr>, \<lparr>Suit = Clubs, Value = 9\<rparr>,
                   \<lparr>Suit = Spades, Value = 5\<rparr>],
          HighCards = [9, 9]\<rparr>"
  by (simp add: evaluator_defs)

text \<open>
  C5, as stated, fails: the classifier returns a classification for six cards, and for
  five cards of which two are no cards at all (suit 7 with value 0, and value 20).
\<close>

theorem evaluateHand_invalid_input_counterexample:
  "evaluateHand
     [\<lparr>Suit = Spades, Value = 1\<rparr>, \<lparr>Suit = Spades, Value = 2\<rparr>, \<lparr>Suit = Spades, Value = 3\<rparr>,
      \<lparr>Suit = Spades, Value = 4\<rparr>, \<lparr>Suit = Spades, Value = 5\<rparr>, \<lparr>Suit = Hearts, Value = 9\<rparr>]
   = Inr \<lparr>Rank = HighCard, Name = ''High Card A'',
          Cards = [\<lparr>Suit = Spades, Value = 1\<rparr>, \<lparr>Suit = Hearts, Value = 9\<rparr>,
                   \<lparr>Suit = Spades, Value = 5\<rparr>, \<lparr>Suit = Spades, Value = 4\<rparr>,
                   \<lparr>Suit = Spades, Value = 3\<rparr>, \<lparr>Suit = Spades, Value = 2\<rparr>],
          HighCards = [14, 9, 5, 4, 3]\<rparr>
   \<and> \<not> IsValidCard \<lparr>Suit = 7, Value = 0\<rparr> \<and> \<not> IsValidCard \<lparr>Suit = Spades, Value = 20\<rparr>
   \<and> evaluateHand
     [\<lparr>Suit = 7, Value = 0\<rparr>, \<lparr>Suit = Spades, Value = 2\<rparr>, \<lparr>Suit = Spades, Value = 3\<rparr>,
      \<lparr>Suit = Spades, Value = 4\<rparr>, \<lparr>Suit = Spades, Value = 20\<rparr>]
   = Inr \<lparr>Rank = HighCard, Name = ''High Card 20'',
          Cards = [\<lparr>Suit = Spades, Value = 20\<rparr>, \<lparr>Suit = Spades, Value = 4\<rparr>,
                   \<lparr>Suit = Spades, Value = 3\<rparr>, \<lparr>Suit = Spades, Value = 2\<rparr>,
                   \<lparr>Suit = 7, Value = 0\<rparr>],
          HighCards = [20, 4, 3, 2, 0]\<rparr>"
  by code_simp

text \<open>
  C5, amended. The classifier does no validation and has no error result for the size of
  its input or the domain of its cards: for every input of five or more cards, whatever
  their number, suits and values, it returns a classification. The size is guarded by its
  caller: \<open>EvaluateBestHand\<close> fails on fewer than five cards, and every hand it passes to
  the classifier has exactly five cards.
\<close>

theorem evaluateHand_no_validation:
  "(5 \<le> length hand \<longrightarrow> (\<exists>r. evaluateHand hand = Inr r))
   \<and> (\<forall>c \<in> set (generateCombinations cards 5). length c = 5)
   \<and> (length cards < 5 \<longrightarrow>
        EvaluateBestHand cards = Inl (ErrorMsg ''not enough cards to evaluate hand''))"
  by (auto simp: evaluateHand_total generateCombinations_combs length_in_combs
      EvaluateBestHand_def)

theorem evaluateHand_no_validation_witness:
  "(\<exists>r. evaluateHand
      [\<lparr>Suit = 7, Value = 0\<rparr>, \<lparr>Suit = Spades, Value = 2\<rparr>, \<lparr>Suit = Spades, Value = 3\<rparr>,
       \<lparr>Suit = Spades, Value = 4\<rparr>, \<lparr>Suit = Spades, Value = 20\<rparr>, \<lparr>Suit = Hearts, Value = 9\<rparr>]
      = Inr r)
   \<and> [\<lparr>Suit = Spades, Value = 2\<rparr>, \<lparr>Suit = Spades, Value = 3\<rparr>, \<lparr>Suit = Spades, Value = 4\<rparr>,
       \<lparr>Suit = Spades, Value = 20\<rparr>, \<lparr>Suit = Hearts, Value = 9\<rparr>]
      \<in> set (generateCombinations
          [\<lparr>Suit = 7, Value = 0\<rparr>, \<lparr>Suit = Spades, Value = 2\<rparr>, \<lparr>Suit = Spades, Value = 3\<rparr>,
           \<lparr>Suit = Spades, Value = 4\<rparr>, \<lparr>Suit = Spades, Value = 20\<rparr>,
           \<lparr>Suit = Hearts, Value = 9\<rparr>] 5)
   \<and> EvaluateBestHand
       [\<lparr>Suit = Spades, Value = 2\<rparr>, \<lparr>Suit = Spades, Value = 3\<rparr>, \<lparr>Suit = Spades, Value = 4\<rparr>,
        \<lparr>Suit = Hearts, Value = 9\<rparr>]
      = Inl (ErrorMsg ''not enough cards to evaluate hand'')"
  using
    evaluateHand_no_validation
      [of "[\<lparr>Suit = 7, Value = 0\<rparr>, \<lparr>Suit = Spades, Value = 2\<rparr>, \<lparr>Suit = Spades, Value = 3\<rparr>,
            \<lparr>Suit = Spades, Value = 4\<rparr>, \<lparr>Suit = Spades, Value = 20\<rparr>,
            \<lparr>Suit = Hearts, Value = 9\<rparr>]"
          "[\<lparr>Suit = Spades, Value = 2\<rparr>, \<lparr>Suit = Spades, Value = 3\<rparr>,
            \<lparr>Suit = Spades, Value = 4\<rparr>, \<lparr>Suit = Hearts, Value = 9\<rparr>]"]
  by (simp add: generateCombinations_combs eval_nat_numeral)

section \<open>Straights\<close>

lemma checkStraight_sortedHand: "checkStraight (sortedHand hand) = checkStraight hand"
  by (simp add: checkStraight_def)

lemma checkFlush_sortedHand:
  assumes "hand \<noteq> []"
  obtains fl where "checkFlush (sortedHand hand) = Inr fl"
    and "fl \<longleftrightarrow> (\<forall>c \<in> set hand. \<forall>c' \<in> set hand. Suit c = Suit c')"
proof -
  have "set (sortedHand hand) = set hand" by simp
  moreover have "sortedHand hand \<noteq> []"
    using assms length_sortedHand [of hand] by (cases "sortedHand hand") auto
  ultimately show thesis
    using checkFlush_Inr [of "sortedHand hand"] that by simp
qed

text \<open>
  C6. For five valid cards the straight check succeeds exactly when the comparison values
  in descending order are \<open>h, h-1, h-2, h-3, h-4\<close>, reporting \<open>h\<close>, or are
  \<open>14, 5, 4, 3, 2\<close>, reporting 5. Five cards of mixed suits with the values of
  A, 2, 3, 4, 5 classify as Straight with tie-break \<open>[5]\<close>; five cards of one suit whose
  straight check reports 14 classify as RoyalFlush.
\<close>

theorem checkStraight_ace_low:
  assumes len: "length hand = 5" and valid: "list_all IsValidCard hand"
  shows
    "checkStraight hand =
       Inr (if (\<exists>h. sort_Reverse (map getComparisonValue hand) = [h, h - 1, h - 2, h - 3, h - 4])
            then (True, hd (sort_Reverse (map getComparisonValue hand)))
            else if sort_Reverse (map getComparisonValue hand) = [14, 5, 4, 3, 2] then (True, 5)
            else (False, 0))
     \<and> (sort_Reverse (map getComparisonValue hand) = [14, 5, 4, 3, 2]
          \<and> \<not> (\<forall>c \<in> set hand. \<forall>c' \<in> set hand. Suit c = Suit c')
        \<longrightarrow> (\<exists>r. evaluateHand hand = Inr r \<and> Rank r = Straight \<and> HighCards r = [5]))
     \<and> ((\<forall>c \<in> set hand. \<forall>c' \<in> set hand. Suit c = Suit c')
          \<and> checkStraight hand = Inr (True, 14)
        \<longrightarrow> (\<exists>r. evaluateHand hand = Inr r \<and> Rank r = RoyalFlush \<and> HighCards r = [14]))"
proof (intro conjI impI)
  let ?vs = "sort_Reverse (map getComparisonValue hand)"
  let ?same = "\<forall>c \<in> set hand. \<forall>c' \<in> set hand. Suit c = Suit c'"
  from len have ne: "hand \<noteq> []" by auto
  from ne obtain fl where cf: "checkFlush (sortedHand hand) = Inr fl" and fl: "fl \<longleftrightarrow> ?same"
    by (rule checkFlush_sortedHand)
  show cs5: "checkStraight hand =
       Inr (if (\<exists>h. ?vs = [h, h - 1, h - 2, h - 3, h - 4]) then (True, hd ?vs)
            else if ?vs = [14, 5, 4, 3, 2] then (True, 5) else (False, 0))"
    using checkStraight_5 [OF len valid] by (simp only: Let_def)
  {
    assume a: "?vs = [14, 5, 4, 3, 2] \<and> \<not> ?same"
    then have "\<not> (\<exists>h. ?vs = [h, h - 1, h - 2, h - 3, h - 4])" by auto
    with a cs5 have "checkStraight (sortedHand hand) = Inr (True, 5)"
      by (simp add: checkStraight_sortedHand)
    moreover from a fl have "\<not> fl" by blast
    ultimately show "\<exists>r. evaluateHand hand = Inr r \<and> Rank r = Straight \<and> HighCards r = [5]"
      unfolding evaluateHand_sortedHand cf by simp
  }
  {
    assume a: "?same \<and> checkStraight hand = Inr (True, 14)"
    then have "checkStraight (sortedHand hand) = Inr (True, 14)"
      by (simp add: checkStraight_sortedHand)
    moreover from a fl have fl by blast
    ultimately show "\<exists>r. evaluateHand hand = Inr r \<and> Rank r = RoyalFlush \<and> HighCards r = [14]"
      unfolding evaluateHand_sortedHand cf by simp
  }
qed

theorem checkStraight_ace_low_witness:
  "(\<exists>r. evaluateHand
       [\<lparr>Suit = Spades, Value = 1\<rparr>, \<lparr>Suit = Hearts, Value = 2\<rparr>, \<lparr>Suit = Diamonds, Value = 3\<rparr>,
        \<lparr>Suit = Clubs, Value = 4\<rparr>, \<lparr>Suit = Spades, Value = 5\<rparr>] = Inr r
       \<and> Rank r = Straight \<and> HighCards r = [5])
   \<and> (\<exists>r. evaluateHand
       [\<lparr>Suit = Spades, Value = 10\<rparr>, \<lparr>Suit = Spades, Value = 11\<rparr>, \<lparr>Suit = Spades, Value = 12\<rparr>,
        \<lparr>Suit = Spades, Value = 13\<rparr>, \<lparr>Suit = Spades, Value = 1\<rparr>] = Inr r
       \<and> Rank r = RoyalFlush \<and> HighCards r = [14])"
  using
    checkStraight_ace_low
      [of "[\<lparr>Suit = Spades, Value = 1\<rparr>, \<lparr>Suit = Hearts, Value = 2\<rparr>,
            \<lparr>Suit = Diamonds, Value = 3\<rparr>, \<lparr>Suit = Clubs, Value = 4\<rparr>,
            \<lparr>Suit = Spades, Value = 5\<rparr>]"]
    checkStraight_ace_low
      [of "[\<lparr>Suit = Spades, Value = 10\<rparr>, \<lparr>Suit = Spades, Value = 11\<rparr>,
            \<lparr>Suit = Spades, Value = 12\<rparr>, \<lparr>Suit = Spades, Value = 13\<rparr>,
            \<lparr>Suit = Spades, Value = 1\<rparr>]"]
  by (simp add: IsValidCard_def sort_Reverse_def getComparisonValue_def)

section \<open>The comparator\<close>

lemma rank_int_bounds: "0 \<le> rank_int r \<and> rank_int r \<le> 9"
  by (cases r) simp_all

lemma rank_int_inj: "rank_int a = rank_int b \<longleftrightarrow> a = b"
  by (cases a; cases b; simp)

lemma compareHighCards_lex:
  assumes "length xs = length ys"
    and "list_all (\<lambda>v. 2 \<le> v \<and> v \<le> 14) xs" and "list_all (\<lambda>v. 2 \<le> v \<and> v \<le> 14) ys"
  shows "(0 < compareHighCards xs ys \<longleftrightarrow> ys < xs)
       \<and> (compareHighCards xs ys < 0 \<longleftrightarrow> xs < ys)
       \<and> (compareHighCards xs ys = 0 \<longleftrightarrow> xs = ys)"
  using assms
proof (induction xs ys rule: list_induct2)
  case Nil
  show ?case by simp
next
  case (Cons x xs y ys)
  then have "int64 (x - y) = x - y"
    by (intro int64_id) auto
  with Cons show ?case
    by auto
qed

lemma CompareHands_key:
  assumes "wellFormed a" and "wellFormed b"
  shows "(0 < CompareHands a b \<longleftrightarrow> handKey b < handKey a)
       \<and> (CompareHands a b < 0 \<longleftrightarrow> handKey a < handKey b)
       \<and> (CompareHands a b = 0 \<longleftrightarrow> handKey a = handKey b)"
proof (cases "Rank a = Rank b")
  case True
  with assms have "length (HighCards a) = length (HighCards b)"
    by (simp add: wellFormed_def)
  from compareHighCards_lex [OF this] assms True show ?thesis
    by (simp add: wellFormed_def CompareHands_def handKey_def)
next
  case False
  have "int64 (rank_int (Rank a) - rank_int (Rank b)) = rank_int (Rank a) - rank_int (Rank b)"
    using rank_int_bounds [of "Rank a"] rank_int_bounds [of "Rank b"]
    by (intro int64_id) auto
  moreover from False have "rank_int (Rank a) \<noteq> rank_int (Rank b)"
    by (simp add: rank_int_inj)
  ultimately show ?thesis
    using False by (auto simp: CompareHands_def handKey_def)
qed

lemma handKey_eq: "handKey a = handKey b \<longleftrightarrow> Rank a = Rank b \<and> HighCards a = HighCards b"
  by (auto simp: handKey_def rank_int_inj)

lemma list_less_index:
  fixes xs ys :: "int list"
  assumes "length xs = length ys"
  shows "ys < xs \<longleftrightarrow> (\<exists>i < length xs. take i xs = take i ys \<and> ys ! i < xs ! i)"
  using assms unfolding list_less_def lexord_take_index_conv by auto

lemma le_sorted_desc:
  fixes xs ys :: "int list"
  shows "mset xs = mset ys \<Longrightarrow> sorted (rev ys) \<Longrightarrow> xs \<le> ys"
proof (induction xs arbitrary: ys)
  case Nil
  then show ?case by simp
next
  case (Cons x xs)
  then obtain y ys' where ys: "ys = y # ys'" by (cases ys) auto
  with Cons.prems have top: "\<forall>z \<in> set ys'. z \<le> y" and rest: "sorted (rev ys')"
    by (auto simp: sorted_append)
  from Cons.prems ys have "x \<in> set (y # ys')"
    by (metis list.set_intros(1) mset_eq_setD)
  with top have "x \<le> y" by auto
  show ?case
  proof (cases "x = y")
    case True
    with Cons.prems ys have "mset xs = mset ys'" by simp
    then have "xs \<le> ys'" using rest by (rule Cons.IH)
    with True ys show ?thesis by simp
  next
    case False
    with \<open>x \<le> y\<close> ys show ?thesis by simp
  qed
qed

lemma le_sort_Reverse: "xs \<le> sort_Reverse xs"
  by (rule le_sorted_desc) (simp_all add: sort_Reverse_def)

text \<open>
  C8. On classified hands (results of the classifier on five valid cards) the comparator is
  a total preorder: the two directions of a comparison agree, a hand compares Equal to
  itself, and "not Less" is transitive. A higher rank wins whatever the tie-breaks are.
  Hands of equal rank have tie-breaks of equal length, compare Equal exactly when the
  tie-breaks are equal, and compare Greater exactly when the first differing entry is
  greater.
\<close>

theorem CompareHands_total_preorder:
  assumes "length xs = 5" and "list_all IsValidCard xs" and "evaluateHand xs = Inr a"
    and "length ys = 5" and "list_all IsValidCard ys" and "evaluateHand ys = Inr b"
    and "length zs = 5" and "list_all IsValidCard zs" and "evaluateHand zs = Inr c"
  shows "(CompareHands a b < 0 \<longleftrightarrow> 0 < CompareHands b a)
       \<and> (CompareHands a b = 0 \<longleftrightarrow> CompareHands b a = 0)
       \<and> CompareHands a a = 0
       \<and> (0 \<le> CompareHands a b \<and> 0 \<le> CompareHands b c \<longrightarrow> 0 \<le> CompareHands a c)
       \<and> (rank_int (Rank b) < rank_int (Rank a) \<longrightarrow> 0 < CompareHands a b)
       \<and> (Rank a = Rank b \<longrightarrow>
            length (HighCards a) = length (HighCards b)
          \<and> (CompareHands a b = 0 \<longleftrightarrow> HighCards a = HighCards b)
          \<and> (0 < CompareHands a b \<longleftrightarrow>
               (\<exists>i < length (HighCards a).
                  take i (HighCards a) = take i (HighCards b)
                \<and> HighCards b ! i < HighCards a ! i)))"
proof -
  have wa: "wellFormed a" using assms(1-3) by (rule evaluateHand_wellFormed)
  have wb: "wellFormed b" using assms(4-6) by (rule evaluateHand_wellFormed)
  have wc: "wellFormed c" using assms(7-9) by (rule evaluateHand_wellFormed)
  note ab = CompareHands_key [OF wa wb] and ba = CompareHands_key [OF wb wa]
    and aa = CompareHands_key [OF wa wa] and bc = CompareHands_key [OF wb wc]
    and ac = CompareHands_key [OF wa wc]
  have p1: "CompareHands a b < 0 \<longleftrightarrow> 0 < CompareHands b a"
    using ab ba by simp
  have p2: "CompareHands a b = 0 \<longleftrightarrow> CompareHands b a = 0"
    using ab ba by auto
  have p3: "CompareHands a a = 0"
    using aa by simp
  have nl: "0 \<le> CompareHands u v \<longleftrightarrow> handKey v \<le> handKey u"
    if "(CompareHands u v < 0 \<longleftrightarrow> handKey u < handKey v)" for u v
    using that by (auto simp: not_less [symmetric])
  have p4: "0 \<le> CompareHands a b \<and> 0 \<le> CompareHands b c \<longrightarrow> 0 \<le> CompareHands a c"
    using nl [of a b] nl [of b c] nl [of a c] ab bc ac by auto
  have p5: "rank_int (Rank b) < rank_int (Rank a) \<longrightarrow> 0 < CompareHands a b"
    using ab by (simp add: handKey_def)
  have p6: "length (HighCards a) = length (HighCards b)
          \<and> (CompareHands a b = 0 \<longleftrightarrow> HighCards a = HighCards b)
          \<and> (0 < CompareHands a b \<longleftrightarrow>
               (\<exists>i < length (HighCards a).
                  take i (HighCards a) = take i (HighCards b)
                \<and> HighCards b ! i < HighCards a ! i))"
    if eq: "Rank a = Rank b"
  proof -
    from eq wa wb have len: "length (HighCards a) = length (HighCards b)"
      by (simp add: wellFormed_def)
    have "0 < CompareHands a b \<longleftrightarrow> HighCards b < HighCards a"
      using ab eq by (simp add: handKey_def)
    with len list_less_index [OF len] ab eq show ?thesis
      by (simp add: handKey_eq)
  qed
  from p6 have p6': "Rank a = Rank b \<longrightarrow>
            length (HighCards a) = length (HighCards b)
          \<and> (CompareHands a b = 0 \<longleftrightarrow> HighCards a = HighCards b)
          \<and> (0 < CompareHands a b \<longleftrightarrow>
               (\<exists>i < length (HighCards a).
                  take i (HighCards a) = take i (HighCards b)
                \<and> HighCards b ! i < HighCards a ! i))"
    by (rule impI)
  from p1 p2 p3 p4 p5 p6' show ?thesis
    by (intro conjI)
qed

theorem CompareHands_total_preorder_witness:
  "0 < CompareHands
         \<lparr>Rank = Pair_rank, Name = ''Pair'',
          Cards = [\<lparr>Suit = Spades, Value = 13\<rparr>, \<lparr>Suit = Hearts, Value = 13\<rparr>,
                   \<lparr>Suit = Diamonds, Value = 9\<rparr>, \<lparr>Suit = Clubs, Value = 5\<rparr>,
                   \<lparr>Suit = Spades, Value = 2\<rparr>],
          HighCards = [13, 13, 9, 5]\<rparr>
         \<lparr>Rank = Pair_rank, Name = ''Pair'',
          Cards = [\<lparr>Suit = Diamonds, Value = 13\<rparr>, \<lparr>Suit = Clubs, Value = 13\<rparr>,
                   \<lparr>Suit = Diamonds, Value = 8\<rparr>, \<lparr>Suit = Hearts, Value = 5\<rparr>,
                   \<lparr>Suit = Hearts, Value = 2\<rparr>],
          HighCards = [13, 13, 8, 5]\<rparr>
   \<and> 0 < CompareHands
         \<lparr>Rank = Pair_rank, Name = ''Pair'',
          Cards = [\<lparr>Suit = Diamonds, Value = 13\<rparr>, \<lparr>Suit = Clubs, Value = 13\<rparr>,
                   \<lparr>Suit = Diamonds, Value = 8\<rparr>, \<lparr>Suit = Hearts, Value = 5\<rparr>,
                   \<lparr>Suit = Hearts, Value = 2\<rparr>],
          HighCards = [13, 13, 8, 5]\<rparr>
         \<lparr>Rank = HighCard, Name = ''High Card A'',
          Cards = [\<lparr>Suit = Spades, Value = 1\<rparr>, \<lparr>Suit = Hearts, Value = 9\<rparr>,
                   \<lparr>Suit = Diamonds, Value = 7\<rparr>, \<lparr>Suit = Clubs, Value = 5\<rparr>,
                   \<lparr>Suit = Spades, Value = 2\<rparr>],
          HighCards = [14, 9, 7, 5, 2]\<rparr>
   \<and> 0 \<le> CompareHands
         \<lparr>Rank = Pair_rank, Name = ''Pair'',
          Cards = [\<lparr>Suit = Spades, Value = 13\<rparr>, \<lparr>Suit = Hearts, Value = 13\<rparr>,
                   \<lparr>Suit = Diamonds, Value = 9\<rparr>, \<lparr>Suit = Clubs, Value = 5\<rparr>,
                   \<lparr>Suit = Spades, Value = 2\<rparr>],
          HighCards = [13, 13, 9, 5]\<rparr>
         \<lparr>Rank = HighCard, Name = ''High Card A'',
          Cards = [\<lparr>Suit = Spades, Value = 1\<rparr>, \<lparr>Suit = Hearts, Value = 9\<rparr>,
                   \<lparr>Suit = Diamonds, Value = 7\<rparr>, \<lparr>Suit = Clubs, Value = 5\<rparr>,
                   \<lparr>Suit = Spades, Value = 2\<rparr>],
          HighCards = [14, 9, 7, 5, 2]\<rparr>"
proof -
  let ?xs = "[\<lparr>Suit = Spades, Value = 13\<rparr>, \<lparr>Suit = Hearts, Value = 13\<rparr>,
              \<lparr>Suit = Diamonds, Value = 9\<rparr>, \<lparr>Suit = Clubs, Value = 5\<rparr>,
              \<lparr>Suit = Spades, Value = 2\<rparr>]"
  let ?ys = "[\<lparr>Suit = Diamonds, Value = 13\<rparr>, \<lparr>Suit = Hearts, Value = 5\<rparr>,
              \<lparr>Suit = Clubs, Value = 13\<rparr>, \<lparr>Suit = Diamonds, Value = 8\<rparr>,
              \<lparr>Suit = Hearts, Value = 2\<rparr>]"
  let ?zs = "[\<lparr>Suit = Hearts, Value = 9\<rparr>, \<lparr>Suit = Spades, Value = 1\<rparr>,
              \<lparr>Suit = Diamonds, Value = 7\<rparr>, \<lparr>Suit = Clubs, Value = 5\<rparr>,
              \<lparr>Suit = Spades, Value = 2\<rparr>]"
  let ?a = "\<lparr>Rank = Pair_rank, Name = ''Pair'',
          Cards = [\<lparr>Suit = Spades, Value = 13\<rparr>, \<lparr>Suit = Hearts, Value = 13\<rparr>,
                   \<lparr>Suit = Diamonds, Value = 9\<rparr>, \<lparr>Suit = Clubs, Value = 5\<rparr>,
                   \<lparr>Suit = Spades, Value = 2\<rparr>],
          HighCards = [13, 13, 9, 5]\<rparr>"
  let ?b = "\<lparr>Rank = Pair_rank, Name = ''Pair'',
          Cards = [\<lparr>Suit = Diamonds, Value = 13\<rparr>, \<lparr>Suit = Clubs, Value = 13\<rparr>,
                   \<lparr>Suit = Diamonds, Value = 8\<rparr>, \<lparr>Suit = Hearts, Value = 5\<rparr>,
                   \<lparr>Suit = Hearts, Value = 2\<rparr>],
          HighCards = [13, 13, 8, 5]\<rparr>"
  let ?c = "\<lparr>Rank = HighCard, Name = ''High Card A'',
          Cards = [\<lparr>Suit = Spades, Value = 1\<rparr>, \<lparr>Suit = Hearts, Value = 9\<rparr>,
                   \<lparr>Suit = Diamonds, Value = 7\<rparr>, \<lparr>Suit = Clubs, Value = 5\<rparr>,
                   \<lparr>Suit = Spades, Value = 2\<rparr>],
          HighCards = [14, 9, 7, 5, 2]\<rparr>"
  have a: "evaluateHand ?xs = Inr ?a" by code_simp
  have b: "evaluateHand ?ys = Inr ?b" by code_simp
  have c: "evaluateHand ?zs = Inr ?c" by code_simp
  have lx: "length ?xs = 5" and ly: "length ?ys = 5" and lz: "length ?zs = 5"
    by simp_all
  have vx: "list_all IsValidCard ?xs" and vy: "list_all IsValidCard ?ys"
    and vz: "list_all IsValidCard ?zs"
    by (simp_all add: IsValidCard_def)
  note t = CompareHands_total_preorder [OF lx vx a ly vy b lz vz c]
  have ab: "0 < CompareHands ?a ?b"
    using t by (simp add: CompareHands_def int64_def)
  have bc: "0 < CompareHands ?b ?c"
    using t by (simp add: CompareHands_def int64_def)
  with ab t have "0 \<le> CompareHands ?a ?c"
    by simp
  with ab bc show ?thesis
    by (intro conjI)
qed

section \<open>The best hand\<close>

lemma nonneg_CompareHands:
  assumes "wellFormed a" and "wellFormed b"
  shows "0 \<le> CompareHands a b \<longleftrightarrow> handKey b \<le> handKey a"
  using CompareHands_key [OF assms] by (auto simp: not_less [symmetric])

lemma bestLoop_max:
  assumes "\<forall>c \<in> set cs. length c = 5 \<and> list_all IsValidCard c" and "wellFormed b0"
  shows "\<exists>best. bestLoop cs b0 = Inr best \<and> wellFormed best
          \<and> (best = b0 \<or> (\<exists>c \<in> set cs. evaluateHand c = Inr best))
          \<and> handKey b0 \<le> handKey best
          \<and> (\<forall>c \<in> set cs. \<forall>r. evaluateHand c = Inr r \<longrightarrow> handKey r \<le> handKey best)"
  using assms
proof (induction cs arbitrary: b0)
  case Nil
  then show ?case by simp
next
  case (Cons c cs)
  from Cons.prems have len: "length c = 5" and valid: "list_all IsValidCard c"
    by simp_all
  from len obtain r where r: "evaluateHand c = Inr r"
    using evaluateHand_total [of c] by auto
  from len valid r have wr: "wellFormed r"
    by (rule evaluateHand_wellFormed)
  define b1 where "b1 = (if 0 < CompareHands r b0 then r else b0)"
  have wb1: "wellFormed b1"
    using wr Cons.prems(2) by (simp add: b1_def)
  have key: "handKey b0 \<le> handKey b1 \<and> handKey r \<le> handKey b1"
    using CompareHands_key [OF wr Cons.prems(2)] by (auto simp: b1_def)
  have which: "b1 = b0 \<or> b1 = r"
    by (simp add: b1_def)
  from Cons.prems have "\<forall>c \<in> set cs. length c = 5 \<and> list_all IsValidCard c"
    by simp
  from Cons.IH [OF this wb1] obtain best where
    best: "bestLoop cs b1 = Inr best" "wellFormed best"
      "best = b1 \<or> (\<exists>c \<in> set cs. evaluateHand c = Inr best)"
      "handKey b1 \<le> handKey best"
      "\<forall>c \<in> set cs. \<forall>r. evaluateHand c = Inr r \<longrightarrow> handKey r \<le> handKey best"
    by blast
  have run: "bestLoop (c # cs) b0 = Inr best"
    using best(1) r by (simp add: b1_def)
  have origin: "best = b0 \<or> (\<exists>c' \<in> set (c # cs). evaluateHand c' = Inr best)"
    using best(3) which r by auto
  have low: "handKey b0 \<le> handKey best"
    using key best(4) by (meson order_trans)
  have all: "\<forall>c' \<in> set (c # cs). \<forall>r'. evaluateHand c' = Inr r' \<longrightarrow> handKey r' \<le> handKey best"
  proof (intro ballI allI impI)
    fix c' r' assume c': "c' \<in> set (c # cs)" and r': "evaluateHand c' = Inr r'"
    show "handKey r' \<le> handKey best"
    proof (cases "c' = c")
      case True
      with r r' have "r' = r" by simp
      with key best(4) show ?thesis by (meson order_trans)
    next
      case False
      with c' have "c' \<in> set cs" by simp
      with best(5) r' show ?thesis by blast
    qed
  qed
  from run best(2) origin low all show ?case
    by blast
qed

lemma initial_bestHand_le:
  assumes len: "length c0 = 5" and r: "evaluateHand c0 = Inr r"
  shows "handKey \<lparr>Rank = HighCard, Name = n, Cards = c0, HighCards = getHighCards c0 5\<rparr>
         \<le> handKey r"
proof (cases "Rank r = HighCard")
  case True
  from r obtain fl st h where
    hc: "HighCards r =
       (if Rank r = RoyalFlush then [14]
        else if Rank r = StraightFlush \<or> Rank r = Straight then [h]
        else getHighCards (sortedHand c0) (keylen (Rank r)))"
    by (rule evaluateHand_InrE)
  with True len have "HighCards r = map getComparisonValue (sortedHand c0)"
    by (simp add: getHighCards_def)
  then have "HighCards r = sort_Reverse (map getComparisonValue c0)"
    by (simp add: values_sortedHand)
  moreover have "getHighCards c0 5 = map getComparisonValue c0"
    using len by (simp add: getHighCards_def)
  ultimately show ?thesis
    using True le_sort_Reverse [of "map getComparisonValue c0"]
    by (simp add: handKey_def)
next
  case False
  then have "0 < rank_int (Rank r)"
    by (cases "Rank r") simp_all
  then show ?thesis
    by (simp add: handKey_def)
qed

text \<open>
  C3. On valid cards, \<open>EvaluateBestHand\<close> fails with the not-enough-cards error when
  given fewer than five cards. Given five or more it returns a hand that compares greater
  than or equal to the classification of every 5-card combination of the input, and that
  compares Equal to, and has the rank and tie-break of, at least one of them.
\<close>

theorem EvaluateBestHand_maximal:
  assumes valid: "list_all IsValidCard cards"
  shows "(length cards < 5 \<longrightarrow>
            EvaluateBestHand cards = Inl (ErrorMsg ''not enough cards to evaluate hand''))
       \<and> (5 \<le> length cards \<longrightarrow>
            (\<exists>best. EvaluateBestHand cards = Inr best
               \<and> (\<forall>c. subseq c cards \<and> length c = 5 \<longrightarrow>
                     (\<exists>r. evaluateHand c = Inr r \<and> 0 \<le> CompareHands best r))
               \<and> (\<exists>c r. subseq c cards \<and> length c = 5 \<and> evaluateHand c = Inr r
                     \<and> CompareHands best r = 0
                     \<and> Rank best = Rank r \<and> HighCards best = HighCards r)))"
proof (intro conjI impI)
  assume "length cards < 5"
  then show "EvaluateBestHand cards = Inl (ErrorMsg ''not enough cards to evaluate hand'')"
    by (simp add: EvaluateBestHand_def)
next
  assume n: "5 \<le> length cards"
  let ?combos = "generateCombinations cards 5"
  have set_combos: "set ?combos = {c. subseq c cards \<and> length c = 5}"
    by (simp add: generateCombinations_combs set_combs)
  have "0 < length ?combos"
    using n by (simp add: generateCombinations_combs length_combs)
  then obtain c0 rest where combos: "?combos = c0 # rest"
    by (cases ?combos) auto
  then have i0: "idx ?combos 0 = Inr c0"
    by (simp add: idx_def)
  have c0_in: "c0 \<in> set ?combos"
    using combos by simp
  have each: "length c = 5 \<and> list_all IsValidCard c" if "c \<in> set ?combos" for c
  proof -
    from that have sub: "subseq c cards" and len: "length c = 5"
      unfolding set_combos by blast+
    from sub have "set c \<subseteq> set cards" by (rule subseq_set_subset)
    with valid len show ?thesis by (auto simp: list_all_iff)
  qed
  let ?b0 = "\<lparr>Rank = HighCard, Name = ''High Card'', Cards = c0,
              HighCards = getHighCards c0 5\<rparr>"
  have wb0: "wellFormed ?b0"
    using each [OF c0_in] getHighCards_set [of c0 5]
    by (auto simp: wellFormed_def getHighCards_length list_all_iff dest!: cv_valid)
  from each have "\<forall>c \<in> set ?combos. length c = 5 \<and> list_all IsValidCard c"
    by blast
  from bestLoop_max [OF this wb0] obtain best where
    run: "bestLoop ?combos ?b0 = Inr best" and wbest: "wellFormed best" and
    origin: "best = ?b0 \<or> (\<exists>c \<in> set ?combos. evaluateHand c = Inr best)" and
    all: "\<forall>c \<in> set ?combos. \<forall>r. evaluateHand c = Inr r \<longrightarrow> handKey r \<le> handKey best"
    by blast
  have result: "EvaluateBestHand cards = Inr best"
    using n run i0 by (simp add: EvaluateBestHand_def Let_def)
  have classified: "\<exists>r. evaluateHand c = Inr r \<and> wellFormed r \<and> handKey r \<le> handKey best"
    if "c \<in> set ?combos" for c
  proof -
    from each [OF that] obtain r where r: "evaluateHand c = Inr r"
      using evaluateHand_total [of c] by auto
    with each [OF that] have "wellFormed r"
      using evaluateHand_wellFormed by blast
    with r all that show ?thesis by blast
  qed
  have ge: "\<forall>c. subseq c cards \<and> length c = 5 \<longrightarrow>
              (\<exists>r. evaluateHand c = Inr r \<and> 0 \<le> CompareHands best r)"
  proof (intro allI impI)
    fix c assume "subseq c cards \<and> length c = 5"
    then have "c \<in> set ?combos" unfolding set_combos by simp
    from classified [OF this] obtain r where
      "evaluateHand c = Inr r" "wellFormed r" "handKey r \<le> handKey best"
      by blast
    with wbest show "\<exists>r. evaluateHand c = Inr r \<and> 0 \<le> CompareHands best r"
      by (auto simp: nonneg_CompareHands)
  qed
  have "\<exists>c r. c \<in> set ?combos \<and> evaluateHand c = Inr r \<and> wellFormed r
           \<and> handKey best = handKey r"
    using origin
  proof
    assume b0: "best = ?b0"
    from classified [OF c0_in] obtain r0 where
      r0: "evaluateHand c0 = Inr r0" "wellFormed r0" "handKey r0 \<le> handKey best"
      by blast
    from each [OF c0_in] r0(1) have "handKey ?b0 \<le> handKey r0"
      by (intro initial_bestHand_le) simp_all
    with r0(3) b0 have "handKey best = handKey r0" by simp
    with c0_in r0 show ?thesis by blast
  next
    assume "\<exists>c \<in> set ?combos. evaluateHand c = Inr best"
    with wbest show ?thesis by blast
  qed
  then obtain c r where
    eq: "c \<in> set ?combos" "evaluateHand c = Inr r" "wellFormed r" "handKey best = handKey r"
    by blast
  from eq(1) have "subseq c cards \<and> length c = 5"
    unfolding set_combos by simp
  moreover from eq(3,4) wbest have "CompareHands best r = 0"
    using CompareHands_key [of best r] by simp
  moreover from eq(4) have "Rank best = Rank r \<and> HighCards best = HighCards r"
    by (simp add: handKey_eq)
  ultimately have "\<exists>c r. subseq c cards \<and> length c = 5 \<and> evaluateHand c = Inr r
      \<and> CompareHands best r = 0 \<and> Rank best = Rank r \<and> HighCards best = HighCards r"
    using eq(2) by blast
  with result ge show "\<exists>best. EvaluateBestHand cards = Inr best
       \<and> (\<forall>c. subseq c cards \<and> length c = 5 \<longrightarrow>
             (\<exists>r. evaluateHand c = Inr r \<and> 0 \<le> CompareHands best r))
       \<and> (\<exists>c r. subseq c cards \<and> length c = 5 \<and> evaluateHand c = Inr r
             \<and> CompareHands best r = 0
             \<and> Rank best = Rank r \<and> HighCards best = HighCards r)"
    by blast
qed

theorem EvaluateBestHand_maximal_witness:
  "EvaluateBestHand
     [\<lparr>Suit = Spades, Value = 9\<rparr>, \<lparr>Suit = Hearts, Value = 9\<rparr>, \<lparr>Suit = Diamonds, Value = 9\<rparr>,
      \<lparr>Suit = Clubs, Value = 9\<rparr>]
     = Inl (ErrorMsg ''not enough cards to evaluate hand'')
   \<and> (\<exists>best. EvaluateBestHand
         [\<lparr>Suit = Spades, Value = 9\<rparr>, \<lparr>Suit = Hearts, Value = 9\<rparr>,
          \<lparr>Suit = Diamonds, Value = 9\<rparr>, \<lparr>Suit = Clubs, Value = 9\<rparr>,
          \<lparr>Suit = Spades, Value = 13\<rparr>, \<lparr>Suit = Hearts, Value = 5\<rparr>,
          \<lparr>Suit = Diamonds, Value = 2\<rparr>] = Inr best
        \<and> (\<exists>r. evaluateHand
               [\<lparr>Suit = Spades, Value = 9\<rparr>, \<lparr>Suit = Hearts, Value = 9\<rparr>,
                \<lparr>Suit = Diamonds, Value = 9\<rparr>, \<lparr>Suit = Hearts, Value = 5\<rparr>,
                \<lparr>Suit = Diamonds, Value = 2\<rparr>] = Inr r
             \<and> 0 \<le> CompareHands best r))"
proof -
  let ?four = "[\<lparr>Suit = Spades, Value = 9\<rparr>, \<lparr>Suit = Hearts, Value = 9\<rparr>,
                \<lparr>Suit = Diamonds, Value = 9\<rparr>, \<lparr>Suit = Clubs, Value = (9::int)\<rparr>]"
  let ?seven = "[\<lparr>Suit = Spades, Value = 9\<rparr>, \<lparr>Suit = Hearts, Value = 9\<rparr>,
          \<lparr>Suit = Diamonds, Value = 9\<rparr>, \<lparr>Suit = Clubs, Value = 9\<rparr>,
          \<lparr>Suit = Spades, Value = 13\<rparr>, \<lparr>Suit = Hearts, Value = 5\<rparr>,
          \<lparr>Suit = Diamonds, Value = (2::int)\<rparr>]"
  let ?five = "[\<lparr>Suit = Spades, Value = 9\<rparr>, \<lparr>Suit = Hearts, Value = 9\<rparr>,
                \<lparr>Suit = Diamonds, Value = 9\<rparr>, \<lparr>Suit = Hearts, Value = 5\<rparr>,
                \<lparr>Suit = Diamonds, Value = (2::int)\<rparr>]"
  have v4: "list_all IsValidCard ?four" and v7: "list_all IsValidCard ?seven"
    by (simp_all add: IsValidCard_def)
  have p1: "EvaluateBestHand ?four = Inl (ErrorMsg ''not enough cards to evaluate hand'')"
    using EvaluateBestHand_maximal [OF v4] by simp
  have "5 \<le> length ?seven" by simp
  with EvaluateBestHand_maximal [OF v7] obtain best where
    best: "EvaluateBestHand ?seven = Inr best"
      "\<forall>c. subseq c ?seven \<and> length c = 5 \<longrightarrow>
           (\<exists>r. evaluateHand c = Inr r \<and> 0 \<le> CompareHands best r)"
    by blast
  have "subseq ?five ?seven \<and> length ?five = 5" by simp
  with best(2) have "\<exists>r. evaluateHand ?five = Inr r \<and> 0 \<le> CompareHands best r"
    by blast
  with p1 best(1) show ?thesis by blast
qed

section \<open>Permutations of the input\<close>

lemma countValues_values:
  "countValues hand = foldl (\<lambda>counts v. incr v counts) [] (map getComparisonValue hand)"
  by (simp add: countValues_def foldl_map)

lemma getHighCards_values: "getHighCards hand n = take n (map getComparisonValue hand)"
  by (simp add: getHighCards_def take_map)

lemma sortedHand_stable:
  "filter (\<lambda>c. getComparisonValue c = v) (sortedHand hand) =
   filter (\<lambda>c. getComparisonValue c = v) hand"
  unfolding sortedHand_def by (rule sort_Slice_stable)

lemma sortedHand_sort_key:
  "sortedHand hand = rev (sort_key getComparisonValue (rev hand))"
  unfolding sortedHand_def by (rule sort_Slice_sort_key)

lemma sortedHand_eqI:
  assumes m: "mset xs = mset ys"
    and groups: "\<And>v. filter (\<lambda>c. getComparisonValue c = v) xs =
                     filter (\<lambda>c. getComparisonValue c = v) ys"
  shows "sortedHand xs = sortedHand ys"
proof -
  let ?f = getComparisonValue
  have "sort_key ?f (rev xs) = sort_key ?f (rev ys)"
  proof (rule properties_for_sort_key)
    show "mset (sort_key ?f (rev ys)) = mset (rev xs)"
      using m by simp
    show "sorted (map ?f (sort_key ?f (rev ys)))"
      by simp
    show "filter (\<lambda>x. ?f k = ?f x) (sort_key ?f (rev ys)) = filter (\<lambda>x. ?f k = ?f x) (rev xs)"
      for k
    proof -
      have sw: "(\<lambda>x. ?f k = ?f x) = (\<lambda>x. ?f x = ?f k)" by auto
      show ?thesis
        unfolding sw by (simp add: sort_key_stable rev_filter [symmetric] groups)
    qed
  qed
  then show ?thesis
    by (simp add: sortedHand_sort_key)
qed

lemma evaluateHand_perm:
  assumes m: "mset xs = mset ys" and len: "length xs = 5"
  shows "map_sum id (\<lambda>r. (Rank r, Name r, HighCards r, map getComparisonValue (Cards r)))
           (evaluateHand xs)
       = map_sum id (\<lambda>r. (Rank r, Name r, HighCards r, map getComparisonValue (Cards r)))
           (evaluateHand ys)"
proof -
  let ?sx = "sortedHand xs" and ?sy = "sortedHand ys"
  from m have leny: "length ys = 5" using len by (metis size_mset)
  from m have sets: "set xs = set ys" by (rule mset_eq_setD)
  have "mset (map getComparisonValue xs) = mset (map getComparisonValue ys)"
    using m by simp
  then have "sort (map getComparisonValue xs) = sort (map getComparisonValue ys)"
    by (rule sort_mset_cong)
  then have vals: "map getComparisonValue ?sy = map getComparisonValue ?sx"
    by (simp add: values_sortedHand sort_Reverse_def)
  from len have "xs \<noteq> []" by auto
  then obtain fl where cfx: "checkFlush ?sx = Inr fl"
    and flx: "fl \<longleftrightarrow> (\<forall>c \<in> set xs. \<forall>c' \<in> set xs. Suit c = Suit c')"
    by (rule checkFlush_sortedHand)
  from leny have "ys \<noteq> []" by auto
  then obtain fl' where cfy: "checkFlush ?sy = Inr fl'"
    and fly: "fl' \<longleftrightarrow> (\<forall>c \<in> set ys. \<forall>c' \<in> set ys. Suit c = Suit c')"
    by (rule checkFlush_sortedHand)
  from flx fly sets have "fl' = fl" by blast
  with cfy have cfy': "checkFlush ?sy = Inr fl" by simp
  have csy: "checkStraight ?sy = checkStraight ?sx"
    by (simp add: checkStraight_def vals)
  obtain st h where csx: "checkStraight ?sx = Inr (st, h)"
    using checkStraight_total [of ?sx] len by auto
  have cnt: "countValues ?sy = countValues ?sx"
    by (simp add: countValues_values vals)
  have high: "getHighCards ?sy n = getHighCards ?sx n" for n
    by (simp add: getHighCards_values vals)
  have ix: "idx ?sx 0 = Inr (?sx ! 0)" and iy: "idx ?sy 0 = Inr (?sy ! 0)"
    using len leny by (simp_all add: idx_def)
  have "getComparisonValue (?sy ! 0) = map getComparisonValue ?sy ! 0"
    using leny by simp
  also have "\<dots> = map getComparisonValue ?sx ! 0"
    by (simp only: vals)
  also have "\<dots> = getComparisonValue (?sx ! 0)"
    using len by simp
  finally have top: "getComparisonValue (?sy ! 0) = getComparisonValue (?sx ! 0)" .
  show ?thesis
    unfolding evaluateHand_sortedHand cfx cfy' csy csx cnt high ix iy
    by (simp add: top vals)
qed

text \<open>
  C7, as stated, fails: two orderings of the same five cards that list the two kings in
  opposite order are classified with different card sequences.
\<close>

theorem evaluateHand_permutation_counterexample:
  "mset [\<lparr>Suit = Spades, Value = 13\<rparr>, \<lparr>Suit = Hearts, Value = 13\<rparr>,
         \<lparr>Suit = Diamonds, Value = 9\<rparr>, \<lparr>Suit = Clubs, Value = 5\<rparr>,
         \<lparr>Suit = Spades, Value = 2\<rparr>]
   = mset [\<lparr>Suit = Hearts, Value = 13\<rparr>, \<lparr>Suit = Clubs, Value = 5\<rparr>,
           \<lparr>Suit = Spades, Value = 13\<rparr>, \<lparr>Suit = Diamonds, Value = 9\<rparr>,
           \<lparr>Suit = Spades, Value = 2\<rparr>]
   \<and> evaluateHand
       [\<lparr>Suit = Spades, Value = 13\<rparr>, \<lparr>Suit = Hearts, Value = 13\<rparr>,
        \<lparr>Suit = Diamonds, Value = 9\<rparr>, \<lparr>Suit = Clubs, Value = 5\<rparr>,
        \<lparr>Suit = Spades, Value = 2\<rparr>]
     = Inr \<lparr>Rank = Pair_rank, Name = ''Pair'',
            Cards = [\<lparr>Suit = Spades, Value = 13\<rparr>, \<lparr>Suit = Hearts, Value = 13\<rparr>,
                     \<lparr>Suit = Diamonds, Value = 9\<rparr>, \<lparr>Suit = Clubs, Value = 5\<rparr>,
                     \<lparr>Suit = Spades, Value = 2\<rparr>],
            HighCards = [13, 13, 9, 5]\<rparr>
   \<and> evaluateHand
       [\<lparr>Suit = Hearts, Value = 13\<rparr>, \<lparr>Suit = Clubs, Value = 5\<rparr>,
        \<lparr>Suit = Spades, Value = 13\<rparr>, \<lparr>Suit = Diamonds, Value = 9\<rparr>,
        \<lparr>Suit = Spades, Value = 2\<rparr>]
     = Inr \<lparr>Rank = Pair_rank, Name = ''Pair'',
            Cards = [\<lparr>Suit = Hearts, Value = 13\<rparr>, \<lparr>Suit = Spades, Value = 13\<rparr>,
                     \<lparr>Suit = Diamonds, Value = 9\<rparr>, \<lparr>Suit = Clubs, Value = 5\<rparr>,
                     \<lparr>Suit = Spades, Value = 2\<rparr>],
            HighCards = [13, 13, 9, 5]\<rparr>"
proof (intro conjI)
  show "mset [\<lparr>Suit = Spades, Value = 13\<rparr>, \<lparr>Suit = Hearts, Value = 13\<rparr>,
         \<lparr>Suit = Diamonds, Value = 9\<rparr>, \<lparr>Suit = Clubs, Value = 5\<rparr>,
         \<lparr>Suit = Spades, Value = (2::int)\<rparr>]
   = mset [\<lparr>Suit = Hearts, Value = 13\<rparr>, \<lparr>Suit = Clubs, Value = 5\<rparr>,
           \<lparr>Suit = Spades, Value = 13\<rparr>, \<lparr>Suit = Diamonds, Value = 9\<rparr>,
           \<lparr>Suit = Spades, Value = 2\<rparr>]"
    by (simp add: add_mset_commute)
qed code_simp+

text \<open>
  C7, amended. For two orderings of the same five cards the classifier returns the
  same rank, name and tie-break key, and card sequences with the same comparison values
  position by position and the same cards overall. Each card sequence is its input in
  descending order of comparison value, with cards of equal comparison value in their
  input order; so the two card sequences, and with them the two results, are equal when
  both orderings list the cards of each comparison value in the same order.
\<close>

theorem evaluateHand_permutation:
  assumes m: "mset xs = mset ys" and len: "length xs = 5"
  shows "\<exists>a b. evaluateHand xs = Inr a \<and> evaluateHand ys = Inr b
       \<and> Rank a = Rank b \<and> Name a = Name b \<and> HighCards a = HighCards b
       \<and> map getComparisonValue (Cards a) = map getComparisonValue (Cards b)
       \<and> mset (Cards a) = mset (Cards b)
       \<and> sorted (rev (map getComparisonValue (Cards a)))
       \<and> (\<forall>v. filter (\<lambda>c. getComparisonValue c = v) (Cards a) =
                filter (\<lambda>c. getComparisonValue c = v) xs)
       \<and> (\<forall>v. filter (\<lambda>c. getComparisonValue c = v) (Cards b) =
                filter (\<lambda>c. getComparisonValue c = v) ys)
       \<and> ((\<forall>v. filter (\<lambda>c. getComparisonValue c = v) xs =
                 filter (\<lambda>c. getComparisonValue c = v) ys) \<longrightarrow> a = b)"
proof -
  from m len have leny: "length ys = 5" by (metis size_mset)
  from len obtain a where a: "evaluateHand xs = Inr a"
    using evaluateHand_total [of xs] by auto
  from leny obtain b where b: "evaluateHand ys = Inr b"
    using evaluateHand_total [of ys] by auto
  from evaluateHand_perm [OF m len] a b have same:
    "Rank a = Rank b" "Name a = Name b" "HighCards a = HighCards b"
    "map getComparisonValue (Cards a) = map getComparisonValue (Cards b)"
    by simp_all
  from a have ca: "Cards a = sortedHand xs"
    by (rule evaluateHand_InrE)
  from b have cb: "Cards b = sortedHand ys"
    by (rule evaluateHand_InrE)
  have ms: "mset (Cards a) = mset (Cards b)"
    using m by (simp add: ca cb)
  have desc: "sorted (rev (map getComparisonValue (Cards a)))"
    by (simp add: ca values_sortedHand sort_Reverse_def)
  have sa: "\<forall>v. filter (\<lambda>c. getComparisonValue c = v) (Cards a) =
                filter (\<lambda>c. getComparisonValue c = v) xs"
    by (simp add: ca sortedHand_stable)
  have sb: "\<forall>v. filter (\<lambda>c. getComparisonValue c = v) (Cards b) =
                filter (\<lambda>c. getComparisonValue c = v) ys"
    by (simp add: cb sortedHand_stable)
  have eq: "a = b"
    if "\<forall>v. filter (\<lambda>c. getComparisonValue c = v) xs =
            filter (\<lambda>c. getComparisonValue c = v) ys"
  proof -
    from that have "sortedHand xs = sortedHand ys"
      by (intro sortedHand_eqI [OF m]) simp
    with ca cb have "Cards a = Cards b" by simp
    with same show ?thesis by simp
  qed
  from a b same ms desc sa sb eq show ?thesis
    by blast
qed

theorem evaluateHand_permutation_witness:
  "\<exists>a b. evaluateHand
       [\<lparr>Suit = Spades, Value = 13\<rparr>, \<lparr>Suit = Hearts, Value = 13\<rparr>,
        \<lparr>Suit = Diamonds, Value = 9\<rparr>, \<lparr>Suit = Clubs, Value = 5\<rparr>,
        \<lparr>Suit = Spades, Value = 2\<rparr>] = Inr a
     \<and> evaluateHand
       [\<lparr>Suit = Hearts, Value = 13\<rparr>, \<lparr>Suit = Clubs, Value = 5\<rparr>,
        \<lparr>Suit = Spades, Value = 13\<rparr>, \<lparr>Suit = Diamonds, Value = 9\<rparr>,
        \<lparr>Suit = Spades, Value = 2\<rparr>] = Inr b
     \<and> Rank a = Rank b \<and> Name a = Name b \<and> HighCards a = HighCards b"
proof -
  let ?xs = "[\<lparr>Suit = Spades, Value = 13\<rparr>, \<lparr>Suit = Hearts, Value = 13\<rparr>,
         \<lparr>Suit = Diamonds, Value = 9\<rparr>, \<lparr>Suit = Clubs, Value = 5\<rparr>,
         \<lparr>Suit = Spades, Value = (2::int)\<rparr>]"
  let ?ys = "[\<lparr>Suit = Hearts, Value = 13\<rparr>, \<lparr>Suit = Clubs, Value = 5\<rparr>,
           \<lparr>Suit = Spades, Value = 13\<rparr>, \<lparr>Suit = Diamonds, Value = 9\<rparr>,
           \<lparr>Suit = Spades, Value = (2::int)\<rparr>]"
  have m: "mset ?xs = mset ?ys" by (simp add: add_mset_commute)
  have len: "length ?xs = 5" by simp
  from evaluateHand_permutation [OF m len] show ?thesis
    by blast
qed

section \<open>Winner resolution\<close>

lemma first_difference_Cons:
  "(\<exists>i < min (Suc n) (Suc m). (\<forall>j < i. P j) \<and> Q i) \<longleftrightarrow>
   Q 0 \<or> (P 0 \<and> (\<exists>i < min n m. (\<forall>j < i. P (Suc j)) \<and> Q (Suc i)))"
proof
  assume "\<exists>i < min (Suc n) (Suc m). (\<forall>j < i. P j) \<and> Q i"
  then obtain i where i: "i < min (Suc n) (Suc m)" "\<forall>j < i. P j" "Q i" by blast
  show "Q 0 \<or> (P 0 \<and> (\<exists>i < min n m. (\<forall>j < i. P (Suc j)) \<and> Q (Suc i)))"
  proof (cases i)
    case 0
    with i show ?thesis by simp
  next
    case (Suc k)
    with i have "P 0" "k < min n m" "\<forall>j < k. P (Suc j)" "Q (Suc k)" by auto
    then show ?thesis by blast
  qed
next
  assume "Q 0 \<or> (P 0 \<and> (\<exists>i < min n m. (\<forall>j < i. P (Suc j)) \<and> Q (Suc i)))"
  then show "\<exists>i < min (Suc n) (Suc m). (\<forall>j < i. P j) \<and> Q i"
  proof
    assume "Q 0"
    then show ?thesis by (intro exI [of _ 0]) simp
  next
    assume "P 0 \<and> (\<exists>i < min n m. (\<forall>j < i. P (Suc j)) \<and> Q (Suc i))"
    then obtain k where k: "P 0" "k < min n m" "\<forall>j < k. P (Suc j)" "Q (Suc k)" by blast
    have "\<forall>j < Suc k. P j"
    proof (intro allI impI)
      fix j assume "j < Suc k"
      with k(1,3) show "P j" by (cases j) auto
    qed
    with k show ?thesis by (intro exI [of _ "Suc k"]) simp
  qed
qed

lemma breakTieLoop_first_difference:
  "breakTieLoop hand1 hand2 cs1 cs2 =
     (if (\<exists>i < min (length cs1) (length cs2).
            (\<forall>j < i. getComparisonValue (cs1 ! j) = getComparisonValue (cs2 ! j))
          \<and> getComparisonValue (cs1 ! i) < getComparisonValue (cs2 ! i))
      then hand2 else hand1)"
proof (induction hand1 hand2 cs1 cs2 rule: breakTieLoop.induct)
  case (1 hand1 hand2 c1 cs1 c2 cs2)
  let ?P = "\<lambda>j. getComparisonValue ((c1 # cs1) ! j) = getComparisonValue ((c2 # cs2) ! j)"
  let ?Q = "\<lambda>i. getComparisonValue ((c1 # cs1) ! i) < getComparisonValue ((c2 # cs2) ! i)"
  have split: "(\<exists>i < min (length (c1 # cs1)) (length (c2 # cs2)). (\<forall>j < i. ?P j) \<and> ?Q i) \<longleftrightarrow>
        ?Q 0 \<or> (?P 0 \<and> (\<exists>i < min (length cs1) (length cs2). (\<forall>j < i. ?P (Suc j)) \<and> ?Q (Suc i)))"
    using first_difference_Cons [of "length cs1" "length cs2" ?P ?Q] by simp
  show ?case
  proof (cases "getComparisonValue c1 = getComparisonValue c2")
    case True
    with 1 split show ?thesis by (simp add: Let_def)
  next
    case False
    with split show ?thesis by (auto simp: Let_def)
  qed
qed simp_all

text \<open>
  C4, as stated, fails. The board holds a royal flush, so both players' best hand is the
  board and the two classifications are identical. With hole cards \<open>4\<clubsuit> 5\<diamondsuit>\<close> player 2 is
  the winner; with hole cards \<open>2\<diamondsuit> 3\<clubsuit>\<close>, and the same classification, player 1 is.
\<close>

theorem DetermineWinner_hole_cards_counterexample:
  "bnd (EvaluateHands [[\<lparr>Suit = Hearts, Value = 2\<rparr>, \<lparr>Suit = Diamonds, Value = 3\<rparr>],
                       [\<lparr>Suit = Clubs, Value = 4\<rparr>, \<lparr>Suit = Diamonds, Value = 5\<rparr>]]
       [\<lparr>Suit = Spades, Value = 1\<rparr>, \<lparr>Suit = Spades, Value = 13\<rparr>,
        \<lparr>Suit = Spades, Value = 12\<rparr>, \<lparr>Suit = Spades, Value = 11\<rparr>,
        \<lparr>Suit = Spades, Value = 10\<rparr>]) DetermineWinner
   = Inr \<lparr>Player = 2, HoleCards = [\<lparr>Suit = Clubs, Value = 4\<rparr>, \<lparr>Suit = Diamonds, Value = 5\<rparr>],
          HandResult = \<lparr>Rank = RoyalFlush, Name = ''Royal Flush'',
            Cards = [\<lparr>Suit = Spades, Value = 1\<rparr>, \<lparr>Suit = Spades, Value = 13\<rparr>,
                     \<lparr>Suit = Spades, Value = 12\<rparr>, \<lparr>Suit = Spades, Value = 11\<rparr>,
                     \<lparr>Suit = Spades, Value = 10\<rparr>],
            HighCards = [14]\<rparr>\<rparr>
   \<and> bnd (EvaluateHands [[\<lparr>Suit = Hearts, Value = 2\<rparr>, \<lparr>Suit = Diamonds, Value = 3\<rparr>],
                       [\<lparr>Suit = Diamonds, Value = 2\<rparr>, \<lparr>Suit = Clubs, Value = 3\<rparr>]]
       [\<lparr>Suit = Spades, Value = 1\<rparr>, \<lparr>Suit = Spades, Value = 13\<rparr>,
        \<lparr>Suit = Spades, Value = 12\<rparr>, \<lparr>Suit = Spades, Value = 11\<rparr>,
        \<lparr>Suit = Spades, Value = 10\<rparr>]) DetermineWinner
   = Inr \<lparr>Player = 1, HoleCards = [\<lparr>Suit = Hearts, Value = 2\<rparr>, \<lparr>Suit = Diamonds, Value = 3\<rparr>],
          HandResult = \<lparr>Rank = RoyalFlush, Name = ''Royal Flush'',
            Cards = [\<lparr>Suit = Spades, Value = 1\<rparr>, \<lparr>Suit = Spades, Value = 13\<rparr>,
                     \<lparr>Suit = Spades, Value = 12\<rparr>, \<lparr>Suit = Spades, Value = 11\<rparr>,
                     \<lparr>Suit = Spades, Value = 10\<rparr>],
            HighCards = [14]\<rparr>\<rparr>
   \<and> CompareHands
        \<lparr>Rank = RoyalFlush, Name = ''Royal Flush'',
            Cards = [\<lparr>Suit = Spades, Value = 1\<rparr>, \<lparr>Suit = Spades, Value = 13\<rparr>,
                     \<lparr>Suit = Spades, Value = 12\<rparr>, \<lparr>Suit = Spades, Value = 11\<rparr>,
                     \<lparr>Suit = Spades, Value = 10\<rparr>],
            HighCards = [14]\<rparr>
        \<lparr>Rank = RoyalFlush, Name = ''Royal Flush'',
            Cards = [\<lparr>Suit = Spades, Value = 1\<rparr>, \<lparr>Suit = Spades, Value = 13\<rparr>,
                     \<lparr>Suit = Spades, Value = 12\<rparr>, \<lparr>Suit = Spades, Value = 11\<rparr>,
                     \<lparr>Suit = Spades, Value = 10\<rparr>],
            HighCards = [14]\<rparr> = 0"
  by (simp add: EvaluateHands_def evaluator_defs DetermineWinner_def breakTie_def)

text \<open>
  C4, amended. When a player's hand compares Equal to the current winner's, winner
  resolution does not declare a split pot: it goes through the two players' hole cards
  position by position, and at the first position where the comparison values differ the
  player with the higher card becomes the winner; when no compared position differs, the
  current winner (the earlier player) stays.
\<close>

theorem DetermineWinner_breaks_ties_by_hole_cards:
  assumes "CompareHands (HandResult p) (HandResult winner) = 0"
  shows "winnerLoop winner (p # ps) =
           winnerLoop
             (if (\<exists>i < min (length (HoleCards winner)) (length (HoleCards p)).
                    (\<forall>j < i. getComparisonValue (HoleCards winner ! j)
                              = getComparisonValue (HoleCards p ! j))
                  \<and> getComparisonValue (HoleCards winner ! i)
                      < getComparisonValue (HoleCards p ! i))
              then p else winner) ps
       \<and> DetermineWinner [winner, p] =
           Inr (if (\<exists>i < min (length (HoleCards winner)) (length (HoleCards p)).
                    (\<forall>j < i. getComparisonValue (HoleCards winner ! j)
                              = getComparisonValue (HoleCards p ! j))
                  \<and> getComparisonValue (HoleCards winner ! i)
                      < getComparisonValue (HoleCards p ! i))
                then p else winner)"
proof -
  have "breakTie winner p =
        (if (\<exists>i < min (length (HoleCards winner)) (length (HoleCards p)).
               (\<forall>j < i. getComparisonValue (HoleCards winner ! j)
                         = getComparisonValue (HoleCards p ! j))
             \<and> getComparisonValue (HoleCards winner ! i)
                 < getComparisonValue (HoleCards p ! i))
         then p else winner)"
    unfolding breakTie_def by (rule breakTieLoop_first_difference)
  moreover have "winnerLoop winner (p # ps) = winnerLoop (breakTie winner p) ps"
    using assms by simp
  moreover have "DetermineWinner [winner, p] = Inr (breakTie winner p)"
    using assms by (simp add: DetermineWinner_def)
  ultimately show ?thesis
    by simp
qed

theorem DetermineWinner_breaks_ties_by_hole_cards_witness:
  "DetermineWinner
     [\<lparr>Player = 1, HoleCards = [\<lparr>Suit = Hearts, Value = 2\<rparr>, \<lparr>Suit = Diamonds, Value = 3\<rparr>],
          HandResult = \<lparr>Rank = RoyalFlush, Name = ''Royal Flush'',
            Cards = [\<lparr>Suit = Spades, Value = 1\<rparr>, \<lparr>Suit = Spades, Value = 13\<rparr>,
                     \<lparr>Suit = Spades, Value = 12\<rparr>, \<lparr>Suit = Spades, Value = 11\<rparr>,
                     \<lparr>Suit = Spades, Value = 10\<rparr>],
            HighCards = [14]\<rparr>\<rparr>,
      \<lparr>Player = 2, HoleCards = [\<lparr>Suit = Clubs, Value = 4\<rparr>, \<lparr>Suit = Diamonds, Value = 5\<rparr>],
          HandResult = \<lparr>Rank = RoyalFlush, Name = ''Royal Flush'',
            Cards = [\<lparr>Suit = Spades, Value = 1\<rparr>, \<lparr>Suit = Spades, Value = 13\<rparr>,
                     \<lparr>Suit = Spades, Value = 12\<rparr>, \<lparr>Suit = Spades, Value = 11\<rparr>,
                     \<lparr>Suit = Spades, Value = 10\<rparr>],
            HighCards = [14]\<rparr>\<rparr>]
   = Inr \<lparr>Player = 2, HoleCards = [\<lparr>Suit = Clubs, Value = 4\<rparr>, \<lparr>Suit = Diamonds, Value = 5\<rparr>],
          HandResult = \<lparr>Rank = RoyalFlush, Name = ''Royal Flush'',
            Cards = [\<lparr>Suit = Spades, Value = 1\<rparr>, \<lparr>Suit = Spades, Value = 13\<rparr>,
                     \<lparr>Suit = Spades, Value = 12\<rparr>, \<lparr>Suit = Spades, Value = 11\<rparr>,
                     \<lparr>Suit = Spades, Value = 10\<rparr>],
            HighCards = [14]\<rparr>\<rparr>"
proof -
  have "CompareHands
        \<lparr>Rank = RoyalFlush, Name = ''Royal Flush'',
            Cards = [\<lparr>Suit = Spades, Value = 1\<rparr>, \<lparr>Suit = Spades, Value = 13\<rparr>,
                     \<lparr>Suit = Spades, Value = 12\<rparr>, \<lparr>Suit = Spades, Value = 11\<rparr>,
                     \<lparr>Suit = Spades, Value = 10\<rparr>],
            HighCards = [14]\<rparr>
        \<lparr>Rank = RoyalFlush, Name = ''Royal Flush'',
            Cards = [\<lparr>Suit = Spades, Value = 1\<rparr>, \<lparr>Suit = Spades, Value = 13\<rparr>,
                     \<lparr>Suit = Spades, Value = 12\<rparr>, \<lparr>Suit = Spades, Value = 11\<rparr>,
                     \<lparr>Suit = Spades, Value = 10\<rparr>],
            HighCards = [14]\<rparr> = 0"
    by (simp add: CompareHands_def)
  then have "CompareHands
      (HandResult \<lparr>Player = 2, HoleCards = [\<lparr>Suit = Clubs, Value = 4\<rparr>, \<lparr>Suit = Diamonds, Value = 5\<rparr>],
          HandResult = \<lparr>Rank = RoyalFlush, Name = ''Royal Flush'',
            Cards = [\<lparr>Suit = Spades, Value = 1\<rparr>, \<lparr>Suit = Spades, Value = 13\<rparr>,
                     \<lparr>Suit = Spades, Value = 12\<rparr>, \<lparr>Suit = Spades, Value = 11\<rparr>,
                     \<lparr>Suit = Spades, Value = 10\<rparr>],
            HighCards = [14]\<rparr>\<rparr>)
      (HandResult \<lparr>Player = 1, HoleCards = [\<lparr>Suit = Hearts, Value = 2\<rparr>, \<lparr>Suit = Diamonds, Value = 3\<rparr>],
          HandResult = \<lparr>Rank = RoyalFlush, Name = ''Royal Flush'',
            Cards = [\<lparr>Suit = Spades, Value = 1\<rparr>, \<lparr>Suit = Spades, Value = 13\<rparr>,
                     \<lparr>Suit = Spades, Value = 12\<rparr>, \<lparr>Suit = Spades, Value = 11\<rparr>,
                     \<lparr>Suit = Spades, Value = 10\<rparr>],
            HighCards = [14]\<rparr>\<rparr>) = 0"
    by simp
  note t = DetermineWinner_breaks_ties_by_hole_cards [OF this, THEN conjunct2]
  let ?p1 = "\<lparr>Player = 1, HoleCards = [\<lparr>Suit = Hearts, Value = 2\<rparr>, \<lparr>Suit = Diamonds, Value = 3\<rparr>],
          HandResult = \<lparr>Rank = RoyalFlush, Name = ''Royal Flush'',
            Cards = [\<lparr>Suit = Spades, Value = 1\<rparr>, \<lparr>Suit = Spades, Value = 13\<rparr>,
                     \<lparr>Suit = Spades, Value = 12\<rparr>, \<lparr>Suit = Spades, Value = 11\<rparr>,
                     \<lparr>Suit = Spades, Value = 10\<rparr>],
            HighCards = [14]\<rparr>\<rparr>"
  let ?p2 = "\<lparr>Player = 2, HoleCards = [\<lparr>Suit = Clubs, Value = 4\<rparr>, \<lparr>Suit = Diamonds, Value = 5\<rparr>],
          HandResult = \<lparr>Rank = RoyalFlush, Name = ''Royal Flush'',
            Cards = [\<lparr>Suit = Spades, Value = 1\<rparr>, \<lparr>Suit = Spades, Value = 13\<rparr>,
                     \<lparr>Suit = Spades, Value = 12\<rparr>, \<lparr>Suit = Spades, Value = 11\<rparr>,
                     \<lparr>Suit = Spades, Value = 10\<rparr>],
            HighCards = [14]\<rparr>\<rparr>"
  have ex: "\<exists>i < min (length (HoleCards ?p1)) (length (HoleCards ?p2)).
              (\<forall>j < i. getComparisonValue (HoleCards ?p1 ! j)
                        = getComparisonValue (HoleCards ?p2 ! j))
            \<and> getComparisonValue (HoleCards ?p1 ! i) < getComparisonValue (HoleCards ?p2 ! i)"
    by (intro exI [of _ 0]) (simp add: getComparisonValue_def)
  show ?thesis
    using t unfolding if_P [OF ex] .
qed

end
